theory Spec2Isabelle
  imports Main "HOL-Library.AList"
begin

section \<open>JavaScript values and built-ins used by the agent tools\<close>

text \<open>
  The values that flow through the resolution pipeline are the values of parsed JSON:
  the model output is a parsed JSON object, option values and default values are JSON
  literals of the piece declarations. Numbers are restricted to integers (printing and
  comparing floating-point numbers is outside this development), and a JavaScript number
  holds an integer exactly up to \<open>Number.MAX_SAFE_INTEGER\<close> in absolute value. An object
  carries its
  own members in JavaScript's property enumeration order; inherited members
  (\<open>Object.prototype\<close>) are not part of the model. Strings are ASCII.
\<close>

datatype json =
    JNull
  | JBool bool
  | JNum int
  | JStr string
  | JArr "json list"
  | JObj "(string \<times> json) list"

text \<open>\<open>String.prototype.toLowerCase\<close> on ASCII text.\<close>

definition lower_char :: "char \<Rightarrow> char" where
  "lower_char c =
     (case map_of (zip ''ABCDEFGHIJKLMNOPQRSTUVWXYZ'' ''abcdefghijklmnopqrstuvwxyz'') c of
        Some d \<Rightarrow> d
      | None \<Rightarrow> c)"

definition toLowerCase :: "string \<Rightarrow> string" where
  "toLowerCase s = map lower_char s"

text \<open>\<open>s.startsWith(p)\<close>, \<open>s.endsWith(p)\<close> and \<open>s.includes(t)\<close>.\<close>

definition startsWith :: "string \<Rightarrow> string \<Rightarrow> bool" where
  "startsWith s p = (take (length p) s = p)"

definition endsWith :: "string \<Rightarrow> string \<Rightarrow> bool" where
  "endsWith s p = (length p \<le> length s \<and> drop (length s - length p) s = p)"

fun str_includes :: "string \<Rightarrow> string \<Rightarrow> bool" where
  "str_includes [] t = (t = [])"
| "str_includes (c # cs) t = (startsWith (c # cs) t \<or> str_includes cs t)"

text \<open>
  \<open>s.replace(p, '')\<close> with a string pattern: only the first occurrence of \<open>p\<close> is
  removed.
\<close>

fun remove_first :: "string \<Rightarrow> string \<Rightarrow> string" where
  "remove_first p [] = []"
| "remove_first p (c # cs) =
     (if startsWith (c # cs) p then drop (length p) (c # cs) else c # remove_first p cs)"

text \<open>Decimal printing of integers, as \<open>String(n)\<close> and \<open>JSON.stringify(n)\<close> do.\<close>

fun string_of_nat :: "nat \<Rightarrow> string" where
  "string_of_nat n =
     (if n < 10 then [''0123456789'' ! n]
      else string_of_nat (n div 10) @ [''0123456789'' ! (n mod 10)])"

declare string_of_nat.simps [simp del]

definition string_of_int :: "int \<Rightarrow> string" where
  "string_of_int i = (if i < 0 then CHR ''-'' # string_of_nat (nat (- i)) else string_of_nat (nat i))"

text \<open>
  \<open>JSON.stringify\<close> without indentation. A string is quoted; the quote, the backslash
  and the control characters are escaped.
\<close>

definition hex_digit :: "nat \<Rightarrow> char" where
  "hex_digit n = ''0123456789abcdef'' ! n"

definition escape_char :: "char \<Rightarrow> string" where
  "escape_char c =
     (if c = CHR 0x22 then [CHR 0x5C, CHR 0x22]
      else if c = CHR 0x5C then [CHR 0x5C, CHR 0x5C]
      else if c = CHR 0x08 then [CHR 0x5C, CHR ''b'']
      else if c = CHR 0x0C then [CHR 0x5C, CHR ''f'']
      else if c = CHR 0x0A then [CHR 0x5C, CHR ''n'']
      else if c = CHR 0x0D then [CHR 0x5C, CHR ''r'']
      else if c = CHR 0x09 then [CHR 0x5C, CHR ''t'']
      else if (of_char c :: nat) < 32
        then [CHR 0x5C, CHR ''u'', CHR ''0'', CHR ''0'',
              hex_digit (of_char c div 16), hex_digit (of_char c mod 16)]
      else [c])"

definition quote :: "string \<Rightarrow> string" where
  "quote s = CHR 0x22 # concat (map escape_char s) @ [CHR 0x22]"

fun join :: "string \<Rightarrow> string list \<Rightarrow> string" where
  "join sep [] = []"
| "join sep [x] = x"
| "join sep (x # y # ys) = x @ sep @ join sep (y # ys)"

fun stringify :: "json \<Rightarrow> string"
  and stringify_elems :: "json list \<Rightarrow> string list"
  and stringify_members :: "(string \<times> json) list \<Rightarrow> string list" where
  "stringify JNull = ''null''"
| "stringify (JBool b) = (if b then ''true'' else ''false'')"
| "stringify (JNum n) = string_of_int n"
| "stringify (JStr s) = quote s"
| "stringify (JArr xs) = ''['' @ join '','' (stringify_elems xs) @ '']''"
| "stringify (JObj kvs) = ''{'' @ join '','' (stringify_members kvs) @ ''}''"
| "stringify_elems [] = []"
| "stringify_elems (x # xs) = stringify x # stringify_elems xs"
| "stringify_members [] = []"
| "stringify_members ((k, v) # kvs) = (quote k @ '':'' @ stringify v) # stringify_members kvs"

text \<open>
  \<open>JSON.stringify\<close> prints a number in full decimal digits when it is an integer that a
  JavaScript number holds exactly (beyond \<open>10^21\<close> it prints an exponent form). A value
  has safe integers when every number in it is such an integer, at most
  \<open>Number.MAX_SAFE_INTEGER = 2^53 - 1\<close> in absolute value.
\<close>

fun safe_integers :: "json \<Rightarrow> bool"
  and safe_elems :: "json list \<Rightarrow> bool"
  and safe_members :: "(string \<times> json) list \<Rightarrow> bool" where
  "safe_integers JNull = True"
| "safe_integers (JBool b) = True"
| "safe_integers (JNum n) = (\<bar>n\<bar> \<le> 9007199254740991)"
| "safe_integers (JStr s) = True"
| "safe_integers (JArr xs) = safe_elems xs"
| "safe_integers (JObj kvs) = safe_members kvs"
| "safe_elems [] = True"
| "safe_elems (x # xs) = (safe_integers x \<and> safe_elems xs)"
| "safe_members [] = True"
| "safe_members ((k, v) # kvs) = (safe_integers v \<and> safe_members kvs)"

text \<open>
  Reading a value as a keyed structure. \<open>typeof v === 'object' && v !== null\<close> holds
  of objects and arrays; \<open>Object.keys\<close> of an array are its indices; \<open>v[k]\<close> reads
  an own member, and an array also has its \<open>length\<close>.
\<close>

fun is_object :: "json \<Rightarrow> bool" where
  "is_object (JArr xs) = True"
| "is_object (JObj kvs) = True"
| "is_object v = False"

definition index_keys :: "nat \<Rightarrow> string list" where
  "index_keys n = map string_of_nat [0..<n]"

fun js_entries :: "json \<Rightarrow> (string \<times> json) list" where
  "js_entries (JObj kvs) = kvs"
| "js_entries (JArr xs) = zip (index_keys (length xs)) xs"
| "js_entries (JStr s) = zip (index_keys (length s)) (map (\<lambda>c. JStr [c]) s)"
| "js_entries v = []"

definition js_keys :: "json \<Rightarrow> string list" where
  "js_keys v = map fst (js_entries v)"

fun js_get :: "json \<Rightarrow> string \<Rightarrow> json option" where
  "js_get (JObj kvs) k = map_of kvs k"
| "js_get (JArr xs) k =
     (if k = ''length'' then Some (JNum (int (length xs)))
      else map_of (zip (index_keys (length xs)) xs) k)"
| "js_get v k = None"

text \<open>
  Strict equality \<open>a === b\<close> between a member of the freshly parsed model output and
  a member of an option value: primitives compare by value, objects and arrays by
  identity, and the parsed output shares no object with the declared options.
\<close>

definition strict_eq :: "json \<Rightarrow> json \<Rightarrow> bool" where
  "strict_eq a b = (\<not> is_object a \<and> a = b)"

section \<open>Value Reconciler\<close>

record DropdownOption =
  label :: string
  val :: json

text \<open>
  The callback of the inner \<open>find\<close>:
  \<open>k in optionObj && extractedObj[k] === optionObj[k]\<close>.
\<close>

definition key_matches :: "json \<Rightarrow> json \<Rightarrow> string \<Rightarrow> bool" where
  "key_matches extractedObj optionObj k =
     (case (js_get extractedObj k, js_get optionObj k) of
        (Some a, Some b) \<Rightarrow> strict_eq a b
      | _ \<Rightarrow> False)"

text \<open>
  \<open>const sharedKey = Object.keys(extractedObj).find(...); if (sharedKey) ...\<close>:
  the test is the truthiness of the key that was found, and the empty string is falsy.
\<close>

definition sharedKey :: "json \<Rightarrow> json \<Rightarrow> string option" where
  "sharedKey extractedObj optionObj = find (key_matches extractedObj optionObj) (js_keys extractedObj)"

definition sharedKey_truthy :: "json \<Rightarrow> json \<Rightarrow> bool" where
  "sharedKey_truthy extractedObj optionObj =
     (case sharedKey extractedObj optionObj of None \<Rightarrow> False | Some k \<Rightarrow> k \<noteq> [])"

definition matchDropdownValue :: "json \<Rightarrow> DropdownOption list \<Rightarrow> json" where
  "matchDropdownValue extractedValue options =
     (if options = [] then extractedValue
      else case find (\<lambda>opt. stringify (val opt) = stringify extractedValue) options of
        Some exact \<Rightarrow> val exact
      | None \<Rightarrow>
         (let extractedStr = (case extractedValue of JStr s \<Rightarrow> s | _ \<Rightarrow> stringify extractedValue) in
          case find (\<lambda>opt. toLowerCase (label opt) = toLowerCase extractedStr) options of
            Some byLabel \<Rightarrow> val byLabel
          | None \<Rightarrow>
              (case find (\<lambda>opt. str_includes (toLowerCase extractedStr) (toLowerCase (label opt)))
                      options of
                 Some byLabelContains \<Rightarrow> val byLabelContains
               | None \<Rightarrow>
                   (case (if is_object extractedValue
                          then find (\<lambda>opt. is_object (val opt)
                                       \<and> sharedKey_truthy extractedValue (val opt)) options
                          else None) of
                      Some opt \<Rightarrow> val opt
                    | None \<Rightarrow> val (hd options)))))"

section \<open>Objects as ordered member lists\<close>

text \<open>
  \<open>obj[k] = v\<close> on an object literal: an existing member keeps its place, a new one
  is appended. \<open>{...a, ...b}\<close> assigns the members of \<open>b\<close> in order. (Keys are
  property names; JavaScript moves keys that look like array indices to the front, which
  is not modelled.)
\<close>

definition obj_set :: "string \<Rightarrow> 'v \<Rightarrow> (string \<times> 'v) list \<Rightarrow> (string \<times> 'v) list" where
  "obj_set k v ob = AList.update k v ob"

definition has_key :: "string \<Rightarrow> (string \<times> 'v) list \<Rightarrow> bool" where
  "has_key k ob = (k \<in> set (map fst ob))"

definition spread :: "(string \<times> 'v) list \<Rightarrow> (string \<times> 'v) list \<Rightarrow> (string \<times> 'v) list" where
  "spread a b = foldl (\<lambda>ob (k, v). obj_set k v ob) a b"

text \<open>Truthiness of a value, as \<open>if (v)\<close> tests it.\<close>

fun truthy :: "json \<Rightarrow> bool" where
  "truthy JNull = False"
| "truthy (JBool b) = b"
| "truthy (JNum n) = (n \<noteq> 0)"
| "truthy (JStr s) = (s \<noteq> [])"
| "truthy v = True"

section \<open>Errors\<close>

text \<open>
  What a \<open>throw\<close> carries. \<open>Error\<close> stands for every instance of \<open>Error\<close> with its
  message (also the engine's \<open>TypeError\<close> and \<open>SyntaxError\<close>); the SDK's
  \<open>NoObjectGeneratedError\<close> carries its message, whether its cause is a
  \<open>JSONParseError\<close>, and the raw generated text when there is one; \<open>NonError\<close> is a
  thrown value that is not an \<open>Error\<close>, given by its \<open>String(...)\<close> form.
\<close>

datatype error =
    Error string
  | NoObjectGeneratedError string bool "string option"
  | NonError string

fun error_message :: "error \<Rightarrow> string" where
  "error_message (Error m) = m"
| "error_message (NoObjectGeneratedError m c t) = m"
| "error_message (NonError s) = s"

section \<open>Property declarations and validation schemas\<close>

datatype PropertyType =
    SHORT_TEXT | LONG_TEXT | MARKDOWN | DATE_TIME | FILE | COLOR
  | DROPDOWN | STATIC_DROPDOWN | MULTI_SELECT_DROPDOWN | STATIC_MULTI_SELECT_DROPDOWN
  | NUMBER | ARRAY | OBJECT | JSON | DYNAMIC | CHECKBOX | CUSTOM
  | OAUTH2 | BASIC_AUTH | CUSTOM_AUTH | SECRET_TEXT

text \<open>
  Modelled from the spec: the enumeration \<open>PropertyType\<close> of the pieces framework is
  imported, not defined, by the agent tools; each member's string value is its name.
\<close>

fun type_name :: "PropertyType \<Rightarrow> string" where
  "type_name SHORT_TEXT = ''SHORT_TEXT''"
| "type_name LONG_TEXT = ''LONG_TEXT''"
| "type_name MARKDOWN = ''MARKDOWN''"
| "type_name DATE_TIME = ''DATE_TIME''"
| "type_name FILE = ''FILE''"
| "type_name COLOR = ''COLOR''"
| "type_name DROPDOWN = ''DROPDOWN''"
| "type_name STATIC_DROPDOWN = ''STATIC_DROPDOWN''"
| "type_name MULTI_SELECT_DROPDOWN = ''MULTI_SELECT_DROPDOWN''"
| "type_name STATIC_MULTI_SELECT_DROPDOWN = ''STATIC_MULTI_SELECT_DROPDOWN''"
| "type_name NUMBER = ''NUMBER''"
| "type_name ARRAY = ''ARRAY''"
| "type_name OBJECT = ''OBJECT''"
| "type_name JSON = ''JSON''"
| "type_name DYNAMIC = ''DYNAMIC''"
| "type_name CHECKBOX = ''CHECKBOX''"
| "type_name CUSTOM = ''CUSTOM''"
| "type_name OAUTH2 = ''OAUTH2''"
| "type_name BASIC_AUTH = ''BASIC_AUTH''"
| "type_name CUSTOM_AUTH = ''CUSTOM_AUTH''"
| "type_name SECRET_TEXT = ''SECRET_TEXT''"

text \<open>
  A property declaration: \<open>staticOptions\<close> is \<open>property.options.options\<close> of a static
  dropdown when the declaration has it; \<open>defaultValue\<close> is \<open>None\<close> when undefined.
\<close>

record PieceProperty =
  ptype :: PropertyType
  description :: "string option"
  required :: bool
  defaultValue :: "json option"
  staticOptions :: "DropdownOption list option"

text \<open>The schemas the synthesizer builds with the validation library.\<close>

datatype object_mode = Loose | Strict

datatype schema =
    ZString
  | ZNumber
  | ZBoolean
  | ZUnknown
  | ZEnum "string list"
  | ZUnion "schema list"
  | ZArray schema
  | ZObject "(string \<times> schema) list" object_mode
  | ZDescribed json schema
  | ZNullable schema

text \<open>
  \<open>schema.describe(d)\<close> sets the description of the schema; a former one is replaced.
  The description is the value that was passed, whatever its type.
\<close>

fun describe :: "json \<Rightarrow> schema \<Rightarrow> schema" where
  "describe d (ZDescribed d' s) = ZDescribed d s"
| "describe d s = ZDescribed d s"

text \<open>
  A \<open>Record<string, unknown>\<close> whose members may be undefined (\<open>None\<close>): the
  resolved-input accumulator.
\<close>

type_synonym record_obj = "(string \<times> json option) list"

text \<open>
  A discovered sub-property is malformed when it is no object with a \<open>type\<close>. A property
  detail keeps \<open>None\<close> for the options of a property that is no dropdown. The prompt of a
  level is given by the arguments of \<open>constructExtractionPrompt\<close>, which determine its
  text: the instruction, the names of the properties to fill, their details, and the
  accumulator, whose defined members the prompt prints. The request of a level is the
  prompt and the schema of the structured output.
\<close>

datatype dyn_entry = Malformed | Decl PieceProperty

record PropertyDetail =
  detail_name :: string
  detail_type :: PropertyType
  detail_description :: "string option"
  detail_options :: "DropdownOption list option"
  detail_defaultValue :: "json option"

record ExtractionPrompt =
  prompt_instruction :: string
  prompt_propertyNames :: "string list"
  prompt_propertyDetails :: "PropertyDetail list"
  prompt_existingValues :: record_obj

record GenerateRequest =
  prompt :: ExtractionPrompt
  output_schema :: schema

text \<open>
  The collaborators of one resolution run, for a fixed operation: the option loader
  \<open>pieceHelper.executeProps\<close> read as a dropdown state (\<open>response.options.options\<close>) or
  as the members of \<open>response.options\<close> of a dynamic property, in the order of
  \<open>Object.entries\<close> (\<open>None\<close> when \<open>response.options\<close> is falsy or not an object;
  the disabled state \<open>{disabled: true}\<close> is an object with the one member \<open>disabled\<close>,
  which is malformed as a declaration), the model invocation (the number of calls issued
  before and the request), and \<open>JSON.parse\<close>.
\<close>

record env =
  executeProps_options :: "string \<Rightarrow> record_obj \<Rightarrow> error + DropdownOption list"
  executeProps_dynamic :: "string \<Rightarrow> record_obj \<Rightarrow> error + (string \<times> dyn_entry) list option"
  generateText :: "nat \<Rightarrow> GenerateRequest \<Rightarrow> error + json"
  JSON_parse :: "string \<Rightarrow> error + json"

section \<open>Schema Synthesizer\<close>

definition loadOptions :: "env \<Rightarrow> string \<Rightarrow> record_obj \<Rightarrow> error + DropdownOption list" where
  "loadOptions e propertyName input = executeProps_options e propertyName input"

text \<open>The \<open>try\<close> of \<open>loadDropdownLabels\<close> turns every failure into the empty list.\<close>

definition loadDropdownLabels :: "env \<Rightarrow> string \<Rightarrow> PieceProperty \<Rightarrow> record_obj \<Rightarrow> string list" where
  "loadDropdownLabels e propertyName property resolvedInput =
     (case (if ptype property = STATIC_DROPDOWN \<or> ptype property = STATIC_MULTI_SELECT_DROPDOWN
            then Inr (case staticOptions property of Some os \<Rightarrow> os | None \<Rightarrow> [])
            else loadOptions e propertyName resolvedInput) of
        Inr os \<Rightarrow> filter (\<lambda>l. l \<noteq> []) (map label os)
      | Inl err \<Rightarrow> [])"

text \<open>
  \<open>tryBuildSchemaFromDefault\<close>. Reading \<open>fieldDef.type\<close> of a \<open>null\<close> field definition
  is a \<open>TypeError\<close>; of any other value that is not an object with that member it is
  undefined. The description is attached when it is truthy, whatever its type: the cast
  of the field definition checks nothing.
\<close>

definition field_schema :: "json list \<Rightarrow> string \<Rightarrow> json \<Rightarrow> error + schema" where
  "field_schema requiredFields fieldName fieldDef =
     (if fieldDef = JNull then Inl (Error ''Cannot read properties of null (reading 'type')'')
      else
        let t = js_get fieldDef ''type'';
            fieldSchema =
              (if t = Some (JStr ''number'') \<or> t = Some (JStr ''integer'') then ZNumber
               else if t = Some (JStr ''boolean'') then ZBoolean
               else if t = Some (JStr ''array'') then ZArray ZUnknown
               else ZString);
            fieldSchema =
              (case js_get fieldDef ''description'' of
                 Some d \<Rightarrow> if truthy d then describe d fieldSchema else fieldSchema
               | None \<Rightarrow> fieldSchema)
        in Inr (if JStr fieldName \<in> set requiredFields then fieldSchema else ZNullable fieldSchema))"

fun shape_of_fields :: "json list \<Rightarrow> (string \<times> json) list \<Rightarrow> (string \<times> schema) list
    \<Rightarrow> error + (string \<times> schema) list" where
  "shape_of_fields requiredFields [] shape = Inr shape"
| "shape_of_fields requiredFields ((fieldName, fieldDef) # rest) shape =
     (case field_schema requiredFields fieldName fieldDef of
        Inl err \<Rightarrow> Inl err
      | Inr fieldSchema \<Rightarrow> shape_of_fields requiredFields rest (obj_set fieldName fieldSchema shape))"

definition tryBuildSchemaFromDefault :: "json \<Rightarrow> error + schema option" where
  "tryBuildSchemaFromDefault dv =
     (if \<not> is_object dv then Inr None
      else case js_get dv ''properties'' of
        None \<Rightarrow> Inr None
      | Some properties \<Rightarrow>
          if js_get dv ''type'' \<noteq> Some (JStr ''object'') \<or> \<not> is_object properties then Inr None
          else
            let requiredFields = (case js_get dv ''required'' of Some (JArr rs) \<Rightarrow> rs | _ \<Rightarrow> []) in
            case shape_of_fields requiredFields (js_entries properties) [] of
              Inl err \<Rightarrow> Inl err
            | Inr shape \<Rightarrow> Inr (Some (ZObject shape Loose)))"

text \<open>
  The post-processing at the end of \<open>propertyToSchema\<close>: the description is attached when
  it is truthy, and an optional property becomes nullable.
\<close>

definition finish_schema :: "PieceProperty \<Rightarrow> schema \<Rightarrow> schema" where
  "finish_schema property s =
     (let s' = (case description property of
                  Some d \<Rightarrow> if d \<noteq> [] then describe (JStr d) s else s
                | None \<Rightarrow> s)
      in if required property then s' else ZNullable s')"

text \<open>
  The loop of \<open>buildDynamicSchema\<close> over the discovered sub-properties; \<open>p2s\<close> is the
  recursive call of \<open>propertyToSchema\<close>. Before the loop, \<open>buildDynamicSchema\<close> gives
  the bare open object when \<open>response.options\<close> is falsy, not an object, or has a member
  named \<open>disabled\<close>.
\<close>

fun dynamic_fields :: "(string \<Rightarrow> PieceProperty \<Rightarrow> (error + schema) option)
    \<Rightarrow> (string \<times> dyn_entry) list \<Rightarrow> (string \<times> schema) list
    \<Rightarrow> (error + (string \<times> schema) list) option" where
  "dynamic_fields p2s [] dynamicSchema = Some (Inr dynamicSchema)"
| "dynamic_fields p2s ((key, Malformed) # rest) dynamicSchema = dynamic_fields p2s rest dynamicSchema"
| "dynamic_fields p2s ((key, Decl v) # rest) dynamicSchema =
     (case p2s key v of
        None \<Rightarrow> None
      | Some (Inl err) \<Rightarrow> Some (Inl err)
      | Some (Inr s) \<Rightarrow>
          (case (case defaultValue v of
                   None \<Rightarrow> Inr s
                 | Some dv \<Rightarrow>
                     if dv \<noteq> JNull \<and> (ptype v = OBJECT \<or> ptype v = JSON)
                     then (case tryBuildSchemaFromDefault dv of
                             Inl err \<Rightarrow> Inl err
                           | Inr (Some schemaFromDefault) \<Rightarrow> Inr schemaFromDefault
                           | Inr None \<Rightarrow>
                               Inr (describe (JStr (''Expected structure: ''
                                      @ (case dv of JStr hint \<Rightarrow> hint | _ \<Rightarrow> stringify dv))) s))
                     else Inr s) of
             Inl err \<Rightarrow> Some (Inl err)
           | Inr s' \<Rightarrow> dynamic_fields p2s rest (obj_set key s' dynamicSchema)))"

definition buildDynamicSchema :: "(string \<Rightarrow> PieceProperty \<Rightarrow> (error + schema) option)
    \<Rightarrow> env \<Rightarrow> string \<Rightarrow> record_obj \<Rightarrow> (error + schema) option" where
  "buildDynamicSchema p2s e propertyName resolvedInput =
     (case executeProps_dynamic e propertyName resolvedInput of
        Inl err \<Rightarrow> Some (Inl err)
      | Inr None \<Rightarrow> Some (Inr (ZObject [] Loose))
      | Inr (Some dynamicProperties) \<Rightarrow>
          if has_key ''disabled'' dynamicProperties then Some (Inr (ZObject [] Loose))
          else
            (case dynamic_fields p2s dynamicProperties [] of
               None \<Rightarrow> None
             | Some (Inl err) \<Rightarrow> Some (Inl err)
             | Some (Inr dynamicSchema) \<Rightarrow> Some (Inr (ZObject dynamicSchema Loose))))"

text \<open>
  \<open>propertyToSchema\<close>. A dynamic property recurses into the declarations the option
  loader discovers, which may again be dynamic, so the recursion is bounded by a fuel:
  \<open>None\<close> means that the fuel ran out, \<open>Some (Inl err)\<close> that the source throws.
\<close>

fun propertyToSchema :: "nat \<Rightarrow> env \<Rightarrow> record_obj \<Rightarrow> string \<Rightarrow> PieceProperty
    \<Rightarrow> (error + schema) option" where
  "propertyToSchema fuel e resolvedInput propertyName property =
     (case ptype property of
        SHORT_TEXT \<Rightarrow> Some (Inr (finish_schema property ZString))
      | LONG_TEXT \<Rightarrow> Some (Inr (finish_schema property ZString))
      | MARKDOWN \<Rightarrow> Some (Inr (finish_schema property ZString))
      | DATE_TIME \<Rightarrow> Some (Inr (finish_schema property ZString))
      | FILE \<Rightarrow> Some (Inr (finish_schema property ZString))
      | COLOR \<Rightarrow> Some (Inr (finish_schema property ZString))
      | DROPDOWN \<Rightarrow>
          (let optionsForSchema = loadDropdownLabels e propertyName property resolvedInput in
           Some (Inr (finish_schema property
             (if optionsForSchema \<noteq> [] then ZEnum optionsForSchema
              else ZUnion [ZString, ZNumber, ZObject [] Loose]))))
      | STATIC_DROPDOWN \<Rightarrow>
          (let optionsForSchema = loadDropdownLabels e propertyName property resolvedInput in
           Some (Inr (finish_schema property
             (if optionsForSchema \<noteq> [] then ZEnum optionsForSchema
              else ZUnion [ZString, ZNumber, ZObject [] Loose]))))
      | MULTI_SELECT_DROPDOWN \<Rightarrow>
          Some (Inr (finish_schema property (ZUnion [ZArray ZString, ZArray (ZObject [] Loose)])))
      | STATIC_MULTI_SELECT_DROPDOWN \<Rightarrow>
          Some (Inr (finish_schema property (ZUnion [ZArray ZString, ZArray (ZObject [] Loose)])))
      | NUMBER \<Rightarrow> Some (Inr (finish_schema property ZNumber))
      | ARRAY \<Rightarrow> Some (Inr (ZArray ZString))
      | OBJECT \<Rightarrow> Some (Inr (finish_schema property (ZObject [] Loose)))
      | JSON \<Rightarrow> Some (Inr (finish_schema property (ZObject [] Loose)))
      | DYNAMIC \<Rightarrow>
          (case fuel of
             0 \<Rightarrow> None
           | Suc n \<Rightarrow>
               (case buildDynamicSchema (\<lambda>key v. propertyToSchema n e resolvedInput key v)
                       e propertyName resolvedInput of
                  None \<Rightarrow> None
                | Some (Inl err) \<Rightarrow> Some (Inl err)
                | Some (Inr s) \<Rightarrow> Some (Inr (finish_schema property s))))
      | CHECKBOX \<Rightarrow> Some (Inr (finish_schema property ZBoolean))
      | CUSTOM \<Rightarrow> Some (Inr (finish_schema property ZString))
      | OAUTH2 \<Rightarrow> Some (Inl (Error (''Unsupported property type: '' @ type_name (ptype property))))
      | BASIC_AUTH \<Rightarrow> Some (Inl (Error (''Unsupported property type: '' @ type_name (ptype property))))
      | CUSTOM_AUTH \<Rightarrow> Some (Inl (Error (''Unsupported property type: '' @ type_name (ptype property))))
      | SECRET_TEXT \<Rightarrow> Some (Inl (Error (''Unsupported property type: '' @ type_name (ptype property)))))"

declare propertyToSchema.simps [simp del]

section \<open>Extraction Orchestrator\<close>

datatype FieldControlMode = AGENT_DECIDE | CHOOSE_YOURSELF | LEAVE_EMPTY

record PredefinedField =
  mode :: FieldControlMode
  field_value :: "json option"

record PredefinedInput =
  auth :: "json option"
  predefined_fields :: "(string \<times> PredefinedField) list"

record ExecuteToolOperation =
  instruction :: string
  pieceName :: string
  pieceVersion :: string
  actionName :: string
  predefinedInput :: "PredefinedInput option"

type_synonym props = "(string \<times> PieceProperty) list"

definition buildPropertyDetail :: "env \<Rightarrow> string \<Rightarrow> PieceProperty \<Rightarrow> record_obj
    \<Rightarrow> error + PropertyDetail" where
  "buildPropertyDetail e propertyName property input =
     (let baseDetail = \<lparr>detail_name = propertyName, detail_type = ptype property,
                         detail_description = description property, detail_options = None,
                         detail_defaultValue = defaultValue property\<rparr>
      in if ptype property = STATIC_DROPDOWN \<or> ptype property = STATIC_MULTI_SELECT_DROPDOWN
         then Inr (baseDetail\<lparr>detail_options :=
                     Some (case staticOptions property of Some os \<Rightarrow> os | None \<Rightarrow> [])\<rparr>)
         else if ptype property = DROPDOWN \<or> ptype property = MULTI_SELECT_DROPDOWN
         then (case loadOptions e propertyName input of
                 Inl err \<Rightarrow> Inl err
               | Inr os \<Rightarrow> Inr (baseDetail\<lparr>detail_options := Some os\<rparr>))
         else Inr baseDetail)"

definition skipTypes :: "PropertyType list" where
  "skipTypes = [BASIC_AUTH, OAUTH2, CUSTOM_AUTH, CUSTOM, MARKDOWN]"

text \<open>
  The seed of the accumulator: the predefined \<open>auth\<close> when it is truthy, then the
  predefined fields the user chose or left empty (an empty field is present with the
  value undefined, \<open>None\<close>).
\<close>

definition seed_field :: "record_obj \<Rightarrow> string \<times> PredefinedField \<Rightarrow> record_obj" where
  "seed_field result nf =
     (case mode (snd nf) of
        CHOOSE_YOURSELF \<Rightarrow> obj_set (fst nf) (field_value (snd nf)) result
      | LEAVE_EMPTY \<Rightarrow> obj_set (fst nf) None result
      | AGENT_DECIDE \<Rightarrow> result)"

definition seed_result :: "ExecuteToolOperation \<Rightarrow> record_obj" where
  "seed_result operation =
     (case predefinedInput operation of
        None \<Rightarrow> []
      | Some pin \<Rightarrow>
          foldl seed_field
            (case auth pin of
               Some a \<Rightarrow> if truthy a then [(''auth'', Some a)] else []
             | None \<Rightarrow> [])
            (predefined_fields pin))"

text \<open>
  The inner loop of a level: every property that is neither of a skipped type nor already
  in the accumulator gets its schema and its property detail. Reading the type of a
  property the action does not declare is a \<open>TypeError\<close>.
\<close>

fun collect_level :: "nat \<Rightarrow> env \<Rightarrow> props \<Rightarrow> record_obj \<Rightarrow> string list
    \<Rightarrow> (string \<times> schema) list \<Rightarrow> PropertyDetail list
    \<Rightarrow> (error + (string \<times> schema) list \<times> PropertyDetail list) option" where
  "collect_level fuel e ps result [] propertyToFill propertyDetails =
     Some (Inr (propertyToFill, propertyDetails))"
| "collect_level fuel e ps result (property # rest) propertyToFill propertyDetails =
     (case map_of ps property of
        None \<Rightarrow> Some (Inl (Error ''Cannot read properties of undefined (reading 'type')''))
      | Some propertyFromAction \<Rightarrow>
          if ptype propertyFromAction \<in> set skipTypes \<or> has_key property result
          then collect_level fuel e ps result rest propertyToFill propertyDetails
          else (case propertyToSchema fuel e result property propertyFromAction of
                  None \<Rightarrow> None
                | Some (Inl err) \<Rightarrow> Some (Inl err)
                | Some (Inr propertySchema) \<Rightarrow>
                    (case buildPropertyDetail e property propertyFromAction result of
                       Inl err \<Rightarrow> Some (Inl err)
                     | Inr propertyDetail \<Rightarrow>
                         collect_level fuel e ps result rest
                           (obj_set property propertySchema propertyToFill)
                           (propertyDetails @ [propertyDetail]))))"

text \<open>
  The handler of \<open>.catch\<close> on the model invocation: a fenced answer that failed to parse
  is parsed again without its fences, every other failure is thrown again.
\<close>

definition recover :: "env \<Rightarrow> error \<Rightarrow> error + json" where
  "recover e err =
     (case err of
        NoObjectGeneratedError m causeIsJSONParseError (Some txt) \<Rightarrow>
          if causeIsJSONParseError \<and> startsWith txt ''```json'' \<and> endsWith txt ''```''
          then JSON_parse e (remove_first ''```'' (remove_first ''```json'' txt))
          else Inl err
      | _ \<Rightarrow> Inl err)"

definition generate_output :: "env \<Rightarrow> nat \<Rightarrow> GenerateRequest \<Rightarrow> error + json" where
  "generate_output e n req =
     (case generateText e n req of
        Inr out \<Rightarrow> Inr out
      | Inl err \<Rightarrow> recover e err)"

text \<open>
  The reconciliation loop over the property details, on the own enumerable members of
  the extracted value. The \<open>in\<close> operator throws a \<open>TypeError\<close> on a primitive.
\<close>

fun reconcile_details :: "bool \<Rightarrow> PropertyDetail list \<Rightarrow> (string \<times> json) list
    \<Rightarrow> error + (string \<times> json) list" where
  "reconcile_details isObj [] extracted = Inr extracted"
| "reconcile_details isObj (detail # rest) extracted =
     (case detail_options detail of
        None \<Rightarrow> reconcile_details isObj rest extracted
      | Some os \<Rightarrow>
          if os = [] then reconcile_details isObj rest extracted
          else if \<not> isObj then Inl (Error ''Cannot use 'in' operator to search for a key in a primitive'')
          else (case map_of extracted (detail_name detail) of
                  None \<Rightarrow> reconcile_details isObj rest extracted
                | Some v \<Rightarrow>
                    reconcile_details isObj rest
                      (obj_set (detail_name detail) (matchDropdownValue v os) extracted)))"

definition merge_extracted :: "record_obj \<Rightarrow> (string \<times> json) list \<Rightarrow> record_obj" where
  "merge_extracted result extracted = spread result (map (\<lambda>(k, v). (k, Some v)) extracted)"

text \<open>
  The request of a level: the prompt built from the instruction, the properties to fill,
  their details and the accumulator, and the closed object schema over the properties to
  fill.
\<close>

definition extraction_request :: "string \<Rightarrow> (string \<times> schema) list \<Rightarrow> PropertyDetail list
    \<Rightarrow> record_obj \<Rightarrow> GenerateRequest" where
  "extraction_request instr propertyToFill propertyDetails result =
     \<lparr>prompt = \<lparr>prompt_instruction = instr,
                 prompt_propertyNames = map fst propertyToFill,
                 prompt_propertyDetails = propertyDetails,
                 prompt_existingValues = result\<rparr>,
      output_schema = ZObject propertyToFill Strict\<rparr>"

text \<open>
  The outer loop over the levels, in ascending depth. The state is the accumulator and
  the list of the model invocations issued so far; the outcome keeps that list also when
  the resolution throws.
\<close>

fun resolve_levels :: "nat \<Rightarrow> env \<Rightarrow> string \<Rightarrow> props \<Rightarrow> string list list \<Rightarrow> record_obj
    \<Rightarrow> GenerateRequest list \<Rightarrow> ((error + record_obj) \<times> GenerateRequest list) option" where
  "resolve_levels fuel e instr ps [] result calls = Some (Inr result, calls)"
| "resolve_levels fuel e instr ps (properties # levels) result calls =
     (case collect_level fuel e ps result properties [] [] of
        None \<Rightarrow> None
      | Some (Inl err) \<Rightarrow> Some (Inl err, calls)
      | Some (Inr (propertyToFill, propertyDetails)) \<Rightarrow>
          if propertyToFill = [] then resolve_levels fuel e instr ps levels result calls
          else
            let req = extraction_request instr propertyToFill propertyDetails result
            in (case generate_output e (length calls) req of
                  Inl err \<Rightarrow> Some (Inl err, calls @ [req])
                | Inr out \<Rightarrow>
                    (case reconcile_details (is_object out) propertyDetails (js_entries out) of
                       Inl err \<Rightarrow> Some (Inl err, calls @ [req])
                     | Inr extracted \<Rightarrow>
                         resolve_levels fuel e instr ps levels
                           (merge_extracted result extracted) (calls @ [req]))))"

definition resolveProperties :: "nat \<Rightarrow> env \<Rightarrow> string list list \<Rightarrow> string \<Rightarrow> props
    \<Rightarrow> ExecuteToolOperation \<Rightarrow> ((error + record_obj) \<times> GenerateRequest list) option" where
  "resolveProperties fuel e depthToPropertyMap instr ps operation =
     resolve_levels fuel e instr ps depthToPropertyMap (seed_result operation) []"

section \<open>Action Executor\<close>

text \<open>
  Modelled from the spec: the enumerations \<open>StepOutputStatus\<close> and
  \<open>ExecutionToolStatus\<close> are imported from the shared package; the executor only
  distinguishes the runtime's failed status from every other one.
\<close>

datatype StepOutputStatus = Step_FAILED | Step_SUCCEEDED | Step_RUNNING | Step_PAUSED | Step_STOPPED

datatype ExecutionToolStatus = Tool_FAILED | Tool_SUCCESS

record StepOutput =
  step_output :: "json option"
  step_errorMessage :: "string option"
  step_status :: StepOutputStatus

text \<open>
  The step handed to the runtime. Every key of the resolved input gets the same property
  setting (manual, no schema), so \<open>propertySettings\<close> is given by its keys.
\<close>

record PieceAction =
  action_name :: string
  action_displayName :: string
  settings_input :: record_obj
  settings_actionName :: string
  settings_pieceName :: string
  settings_pieceVersion :: string
  settings_propertySettings :: "string list"
  action_valid :: bool

record ExecuteToolResponse =
  status :: ExecutionToolStatus
  tool_output :: "json option"
  resolvedInput :: record_obj
  errorMessage :: "string option"

text \<open>
  The collaborators of the executor: the action lookup of the piece loader (the executor
  reads the properties of the action it returns), the dependency sorter (its levels in
  ascending depth), the runtime (the \<open>steps\<close> of the context it returns) and the
  collaborators of the resolution.
\<close>

record executor_env =
  getPieceAndActionOrThrow :: "ExecuteToolOperation \<Rightarrow> error + props"
  sortPropertiesByDependencies :: "props \<Rightarrow> error + string list list"
  handle :: "PieceAction \<Rightarrow> error + (string \<times> StepOutput) list"
  resolution :: env

definition make_step :: "ExecuteToolOperation \<Rightarrow> record_obj \<Rightarrow> PieceAction" where
  "make_step operation resolved =
     \<lparr>action_name = actionName operation,
      action_displayName = actionName operation,
      settings_input = resolved,
      settings_actionName = actionName operation,
      settings_pieceName = pieceName operation,
      settings_pieceVersion = pieceVersion operation,
      settings_propertySettings = map fst resolved,
      action_valid = True\<rparr>"

definition redaction_marker :: json where
  "redaction_marker = JStr ''Redacted''"

text \<open>The body of the \<open>try\<close> block of \<open>execute\<close>.\<close>

definition execute_try :: "nat \<Rightarrow> executor_env \<Rightarrow> ExecuteToolOperation
    \<Rightarrow> (error + ExecuteToolResponse) option" where
  "execute_try fuel X operation =
     (case getPieceAndActionOrThrow X operation of
        Inl err \<Rightarrow> Some (Inl err)
      | Inr ps \<Rightarrow>
          (case sortPropertiesByDependencies X ps of
             Inl err \<Rightarrow> Some (Inl err)
           | Inr depthToPropertyMap \<Rightarrow>
               (case resolveProperties fuel (resolution X) depthToPropertyMap
                       (instruction operation) ps operation of
                  None \<Rightarrow> None
                | Some (Inl err, calls) \<Rightarrow> Some (Inl err)
                | Some (Inr resolved, calls) \<Rightarrow>
                    (case handle X (make_step operation resolved) of
                       Inl err \<Rightarrow> Some (Inl err)
                     | Inr steps \<Rightarrow>
                         (case map_of steps (actionName operation) of
                            None \<Rightarrow> Some (Inl (Error ''Cannot destructure the step output as it is undefined.''))
                          | Some so \<Rightarrow>
                              Some (Inr \<lparr>status = (if step_status so = Step_FAILED
                                                     then Tool_FAILED else Tool_SUCCESS),
                                         tool_output = step_output so,
                                         resolvedInput = obj_set ''auth'' (Some redaction_marker) resolved,
                                         errorMessage = step_errorMessage so\<rparr>))))))"

text \<open>
  \<open>execute\<close>: the \<open>try\<close> block and its \<open>catch\<close>, which builds the failure response from
  the message of what was thrown.
\<close>

definition failure_response :: "error \<Rightarrow> ExecuteToolResponse" where
  "failure_response err =
     \<lparr>status = Tool_FAILED,
      tool_output = None,
      resolvedInput = [],
      errorMessage = Some (''Tool execution error: '' @ error_message err)\<rparr>"

definition execute :: "nat \<Rightarrow> executor_env \<Rightarrow> ExecuteToolOperation
    \<Rightarrow> (error + ExecuteToolResponse) option" where
  "execute fuel X operation =
     (case execute_try fuel X operation of
        None \<Rightarrow> None
      | Some (Inr response) \<Rightarrow> Some (Inr response)
      | Some (Inl err) \<Rightarrow> Some (Inr (failure_response err)))"

section \<open>Execution Transcript Builder\<close>

datatype ToolCallStatus = IN_PROGRESS | COMPLETED

datatype AgentToolType = PIECE | FLOW | MCP

record PieceMetadata =
  metadata_pieceName :: string
  metadata_pieceVersion :: string
  metadata_actionName :: string

record AgentTool =
  toolName :: string
  tool_type :: AgentToolType
  pieceMetadata :: "PieceMetadata option"
  externalFlowId :: "string option"
  serverUrl :: "string option"

text \<open>The fields that depend on the kind of tool behind a call.\<close>

datatype ToolCallKind =
    PieceCall string string string
  | FlowCall string string
  | McpCall string string

record ToolCallContentBlock =
  call_toolName :: string
  toolCallId :: string
  call_status :: ToolCallStatus
  call_input :: json
  call_output :: "json option"
  startTime :: string
  endTime :: "string option"
  call_kind :: ToolCallKind

datatype AgentStepBlock = Markdown string | ToolCall ToolCallContentBlock

text \<open>
  Modelled from the spec: \<open>assertNotNullOrUndefined\<close> of the shared package is imported,
  not defined, by the builder; it fails hard on a missing value.
\<close>

definition assertNotNullOrUndefined :: "'a option \<Rightarrow> string \<Rightarrow> error + 'a" where
  "assertNotNullOrUndefined v fieldName =
     (case v of None \<Rightarrow> Inl (Error (fieldName @ '' is null or undefined'')) | Some x \<Rightarrow> Inr x)"

definition findMatchingTool :: "string \<Rightarrow> AgentTool list \<Rightarrow> AgentTool option" where
  "findMatchingTool name tools =
     (case find (\<lambda>tool. toolName tool = name) tools of
        Some exactMatch \<Rightarrow> Some exactMatch
      | None \<Rightarrow> find (\<lambda>tool. tool_type tool = MCP \<and> endsWith name (''_'' @ toolName tool)) tools)"

definition getToolMetadata :: "string \<Rightarrow> AgentTool list \<Rightarrow> (ToolCallKind \<Rightarrow> ToolCallContentBlock)
    \<Rightarrow> error + ToolCallContentBlock" where
  "getToolMetadata name tools baseTool =
     (case assertNotNullOrUndefined (findMatchingTool name tools)
             (''Tool '' @ name @ '' not found in agent tools: ['' @ join '', '' (map toolName tools) @ '']'') of
        Inl err \<Rightarrow> Inl err
      | Inr tool \<Rightarrow>
          (case tool_type tool of
             PIECE \<Rightarrow>
               (case assertNotNullOrUndefined (pieceMetadata tool) ''Piece metadata is required'' of
                  Inl err \<Rightarrow> Inl err
                | Inr pm \<Rightarrow> Inr (baseTool (PieceCall (metadata_pieceName pm) (metadata_pieceVersion pm)
                                              (metadata_actionName pm))))
           | FLOW \<Rightarrow>
               (case assertNotNullOrUndefined (externalFlowId tool) ''Flow ID is required'' of
                  Inl err \<Rightarrow> Inl err
                | Inr fid \<Rightarrow> Inr (baseTool (FlowCall (toolName tool) fid)))
           | MCP \<Rightarrow>
               (case assertNotNullOrUndefined (serverUrl tool) ''Mcp server URL is required'' of
                  Inl err \<Rightarrow> Inl err
                | Inr url \<Rightarrow>
                    Inr (baseTool (McpCall
                      (if endsWith name (''_'' @ toolName tool)
                       then take (length name - (length (toolName tool) + 1)) name
                       else name) url)))))"

text \<open>
  The operations on the list of blocks. The current time (\<open>new Date().toISOString()\<close>)
  is an argument.
\<close>

definition startToolCall :: "AgentStepBlock list \<Rightarrow> string \<Rightarrow> string \<Rightarrow> json \<Rightarrow> AgentTool list
    \<Rightarrow> string \<Rightarrow> error + AgentStepBlock list" where
  "startToolCall steps name callId input agentTools now =
     (case getToolMetadata name agentTools
             (\<lambda>k. \<lparr>call_toolName = name, toolCallId = callId, call_status = IN_PROGRESS,
                    call_input = input, call_output = None, startTime = now, endTime = None,
                    call_kind = k\<rparr>) of
        Inl err \<Rightarrow> Inl err
      | Inr metadata \<Rightarrow> Inr (steps @ [ToolCall metadata]))"

fun findIndex :: "('a \<Rightarrow> bool) \<Rightarrow> 'a list \<Rightarrow> nat option" where
  "findIndex P [] = None"
| "findIndex P (x # xs) = (if P x then Some 0 else map_option Suc (findIndex P xs))"

fun is_call_with_id :: "string \<Rightarrow> AgentStepBlock \<Rightarrow> bool" where
  "is_call_with_id callId (ToolCall t) = (toolCallId t = callId)"
| "is_call_with_id callId (Markdown m) = False"

fun complete_block :: "string \<Rightarrow> json \<Rightarrow> AgentStepBlock \<Rightarrow> AgentStepBlock" where
  "complete_block now out (ToolCall t) =
     ToolCall (t\<lparr>call_status := COMPLETED, endTime := Some now, call_output := Some out\<rparr>)"
| "complete_block now out (Markdown m) = Markdown m"

definition finishToolCall :: "AgentStepBlock list \<Rightarrow> string \<Rightarrow> json \<Rightarrow> string
    \<Rightarrow> error + AgentStepBlock list" where
  "finishToolCall steps callId out now =
     (case assertNotNullOrUndefined
             (map_option (\<lambda>toolIdx. (toolIdx, steps ! toolIdx)) (findIndex (is_call_with_id callId) steps))
             ''Last block must be a tool call'' of
        Inl err \<Rightarrow> Inl err
      | Inr (toolIdx, tool) \<Rightarrow> Inr (steps[toolIdx := complete_block now out tool]))"

definition failed_output :: json where
  "failed_output = JObj [(''status'', JStr ''FAILED'')]"

definition failToolCall :: "AgentStepBlock list \<Rightarrow> string \<Rightarrow> string \<Rightarrow> error + AgentStepBlock list" where
  "failToolCall steps callId now =
     (case assertNotNullOrUndefined
             (map_option (\<lambda>toolIdx. (toolIdx, steps ! toolIdx)) (findIndex (is_call_with_id callId) steps))
             ''Last block must be a tool call'' of
        Inl err \<Rightarrow> Inl err
      | Inr (toolIdx, tool) \<Rightarrow> Inr (steps[toolIdx := complete_block now failed_output tool]))"

text \<open>\<open>addMarkdown\<close>: the text joins the last block when that is a markdown block.\<close>

definition addMarkdown :: "AgentStepBlock list \<Rightarrow> string \<Rightarrow> AgentStepBlock list" where
  "addMarkdown steps markdown =
     (case (if steps = [] then None else Some (last steps)) of
        Some (Markdown m) \<Rightarrow> butlast steps @ [Markdown (m @ markdown)]
      | _ \<Rightarrow> steps @ [Markdown markdown])"

section \<open>What a schema accepts\<close>

text \<open>
  The validation of a value against a schema, as the validation library does it; \<open>None\<close>
  is an absent value (a missing member of an object). A nullable schema accepts
  \<open>null\<close>; an object schema validates each declared member and, when strict, rejects
  members it does not declare.
\<close>

fun accepts :: "schema \<Rightarrow> json option \<Rightarrow> bool" where
  "accepts ZString v = (case v of Some (JStr s) \<Rightarrow> True | _ \<Rightarrow> False)"
| "accepts ZNumber v = (case v of Some (JNum n) \<Rightarrow> True | _ \<Rightarrow> False)"
| "accepts ZBoolean v = (case v of Some (JBool b) \<Rightarrow> True | _ \<Rightarrow> False)"
| "accepts ZUnknown v = True"
| "accepts (ZEnum ls) v = (case v of Some (JStr s) \<Rightarrow> s \<in> set ls | _ \<Rightarrow> False)"
| "accepts (ZUnion ss) v = list_ex (\<lambda>s. accepts s v) ss"
| "accepts (ZArray s) v = (case v of Some (JArr xs) \<Rightarrow> list_all (\<lambda>x. accepts s (Some x)) xs | _ \<Rightarrow> False)"
| "accepts (ZObject fs m) v =
     (case v of
        Some (JObj kvs) \<Rightarrow>
          list_all (\<lambda>(k, s). accepts s (map_of kvs k)) fs
          \<and> (m = Strict \<longrightarrow> list_all (\<lambda>k. k \<in> set (map fst fs)) (map fst kvs))
      | _ \<Rightarrow> False)"
| "accepts (ZDescribed d s) v = accepts s v"
| "accepts (ZNullable s) v = (v = Some JNull \<or> accepts s v)"

section \<open>What the specification says, in its own words\<close>

text \<open>
  Rung 4 of the reconciliation ladder as the specification words it: the extracted value
  and the option value are both keyed structures and share at least one key with an
  equal value (the two members are compared as strict equality compares them).
\<close>

definition shares_key_with_equal_value :: "json \<Rightarrow> json \<Rightarrow> bool" where
  "shares_key_with_equal_value extracted optionValue =
     (is_object extracted \<and> is_object optionValue
      \<and> (\<exists>k \<in> set (js_keys extracted). key_matches extracted optionValue k))"

text \<open>
  The reconciliation ladder as the specification words it: the string form of the
  extracted value, containment of one string in another, and the first match of the
  rungs in order (equal value, equal label, contained label, shared key), else the first
  option.
\<close>

definition string_form :: "json \<Rightarrow> string" where
  "string_form extracted = (case extracted of JStr s \<Rightarrow> s | _ \<Rightarrow> stringify extracted)"

definition contained_in :: "string \<Rightarrow> string \<Rightarrow> bool" where
  "contained_in t s = (\<exists>pre suf. s = pre @ t @ suf)"

definition ladder :: "json \<Rightarrow> DropdownOption list \<Rightarrow> json" where
  "ladder extracted opts =
     (case find (\<lambda>opt. stringify (val opt) = stringify extracted) opts of
        Some opt \<Rightarrow> val opt
      | None \<Rightarrow>
     (case find (\<lambda>opt. toLowerCase (label opt) = toLowerCase (string_form extracted)) opts of
        Some opt \<Rightarrow> val opt
      | None \<Rightarrow>
     (case find (\<lambda>opt. contained_in (toLowerCase (label opt)) (toLowerCase (string_form extracted))) opts of
        Some opt \<Rightarrow> val opt
      | None \<Rightarrow>
     (case find (\<lambda>opt. shares_key_with_equal_value extracted (val opt)) opts of
        Some opt \<Rightarrow> val opt
      | None \<Rightarrow> val (hd opts)))))"

text \<open>
  A field of a schema descriptor gives a number schema when its type is number or integer,
  a boolean schema for boolean, an array-of-unknown schema for array and a string schema
  for anything else; the field's own description is attached when the field has one that
  is truthy; a field listed as required stays required, every other one becomes nullable.
\<close>

definition derived_field_type :: "json \<Rightarrow> schema" where
  "derived_field_type fieldDef =
     (case js_get fieldDef ''type'' of
        Some (JStr t) \<Rightarrow>
          if t = ''number'' \<or> t = ''integer'' then ZNumber
          else if t = ''boolean'' then ZBoolean
          else if t = ''array'' then ZArray ZUnknown
          else ZString
      | _ \<Rightarrow> ZString)"

definition derived_field_schema :: "json list \<Rightarrow> string \<Rightarrow> json \<Rightarrow> schema" where
  "derived_field_schema requiredFields fieldName fieldDef =
     (let described =
            (case js_get fieldDef ''description'' of
               Some d \<Rightarrow> if truthy d then describe d (derived_field_type fieldDef)
                         else derived_field_type fieldDef
             | None \<Rightarrow> derived_field_type fieldDef)
      in if JStr fieldName \<in> set requiredFields then described else ZNullable described)"

section \<open>Flat option loaders and well-formed requests\<close>

text \<open>
  The option loader is flat when the sub-properties it discovers for a dynamic property
  are never dynamic themselves; then one unit of fuel is enough for every schema.
\<close>

definition flat_dynamic :: "env \<Rightarrow> bool" where
  "flat_dynamic e =
     (\<forall>name input entries k v. executeProps_dynamic e name input = Inr (Some entries)
        \<longrightarrow> (k, Decl v) \<in> set entries \<longrightarrow> ptype v \<noteq> DYNAMIC)"

text \<open>
  A request asks only for what is missing: the properties it asks the model to fill are
  not in the accumulator it embeds, which holds at least the keys of \<open>result\<close>, and its
  schema is the closed object schema over exactly those properties.
\<close>

definition asks_only_missing :: "record_obj \<Rightarrow> GenerateRequest \<Rightarrow> bool" where
  "asks_only_missing result r =
     (set (prompt_propertyNames (prompt r)) \<inter> fst ` set (prompt_existingValues (prompt r)) = {}
      \<and> fst ` set result \<subseteq> fst ` set (prompt_existingValues (prompt r))
      \<and> (\<exists>fill. output_schema r = ZObject fill Strict
              \<and> map fst fill = prompt_propertyNames (prompt r) \<and> fill \<noteq> []))"

section \<open>Scenarios\<close>

text \<open>
  Collaborators for concrete runs: an option loader that discovers nothing, a model whose
  call fails with a given error, and a parser given by a table.
\<close>

definition scenario_env :: "error \<Rightarrow> (string \<times> json) list \<Rightarrow> env" where
  "scenario_env modelError parsed =
     \<lparr>executeProps_options = (\<lambda>name input. Inr []),
      executeProps_dynamic = (\<lambda>name input. Inr None),
      generateText = (\<lambda>n req. Inl modelError),
      JSON_parse = (\<lambda>txt. case map_of parsed txt of
                               None \<Rightarrow> Inl (Error ''Unexpected token'')
                             | Some v \<Rightarrow> Inr v)\<rparr>"

definition scenario_executor :: "(error + props) \<Rightarrow> (PieceAction \<Rightarrow> error + (string \<times> StepOutput) list)
    \<Rightarrow> env \<Rightarrow> executor_env" where
  "scenario_executor found runtime e =
     \<lparr>getPieceAndActionOrThrow = (\<lambda>operation. found),
      sortPropertiesByDependencies = (\<lambda>ps. Inr [map fst ps]),
      handle = runtime,
      resolution = e\<rparr>"

definition echo_auth_runtime :: "StepOutputStatus \<Rightarrow> PieceAction \<Rightarrow> error + (string \<times> StepOutput) list" where
  "echo_auth_runtime st step =
     Inr [(action_name step,
           \<lparr>step_output = (case map_of (settings_input step) ''auth'' of
                              Some (Some a) \<Rightarrow> Some a
                            | _ \<Rightarrow> None),
            step_errorMessage = None,
            step_status = st\<rparr>)]"

definition secret_operation :: ExecuteToolOperation where
  "secret_operation =
     \<lparr>instruction = ''send it'', pieceName = ''mail'', pieceVersion = ''1.0.0'',
      actionName = ''send'',
      predefinedInput = Some \<lparr>auth = Some (JStr ''s3cret''), predefined_fields = []\<rparr>\<rparr>"



definition text_property :: PieceProperty where
  "text_property = \<lparr>ptype = SHORT_TEXT, description = None, required = True,
                    defaultValue = None, staticOptions = None\<rparr>"

definition predefined_operation :: ExecuteToolOperation where
  "predefined_operation =
     \<lparr>instruction = ''write to bob'', pieceName = ''mail'', pieceVersion = ''1.0.0'',
      actionName = ''send'',
      predefinedInput = Some \<lparr>auth = Some (JStr ''s3cret''),
        predefined_fields = [(''to'', \<lparr>mode = CHOOSE_YOURSELF, field_value = Some (JStr ''alice'')\<rparr>)]\<rparr>\<rparr>"

text \<open>
  A model that answers every request with exactly the requested properties, all at the
  same value.
\<close>

definition filling_env :: "json \<Rightarrow> env" where
  "filling_env v =
     \<lparr>executeProps_options = (\<lambda>name input. Inr []),
      executeProps_dynamic = (\<lambda>name input. Inr None),
      generateText = (\<lambda>n req. Inr (JObj (map (\<lambda>k. (k, v)) (prompt_propertyNames (prompt req))))),
      JSON_parse = (\<lambda>txt. Inl (Error ''Unexpected token''))\<rparr>"

text \<open>
  An option loader that discovers the given sub-properties for one dynamic property, and
  a schema descriptor as a default value.
\<close>

definition dynamic_env :: "string \<Rightarrow> (string \<times> dyn_entry) list \<Rightarrow> env" where
  "dynamic_env dynamicName entries =
     \<lparr>executeProps_options = (\<lambda>name input. Inr []),
      executeProps_dynamic = (\<lambda>name input. if name = dynamicName then Inr (Some entries) else Inr None),
      generateText = (\<lambda>n req. Inl (Error ''down'')),
      JSON_parse = (\<lambda>txt. Inl (Error ''Unexpected token''))\<rparr>"

definition payload_descriptor :: json where
  "payload_descriptor =
     JObj [(''type'', JStr ''object''),
           (''properties'', JObj [(''amount'', JObj [(''type'', JStr ''number'')]),
                                  (''note'', JObj [(''type'', JStr ''string'')])]),
           (''required'', JArr [JStr ''amount''])]"

text \<open>
  A descriptor whose field carries a description that is no string, and what the option
  loader discovers for the dynamic property of a flow call: two object sub-properties with
  a default (a descriptor, and a sample value), a text sub-property with a default, an
  object sub-property with the described descriptor, and a member that is no declaration.
\<close>

definition described_descriptor :: json where
  "described_descriptor =
     JObj [(''type'', JStr ''object''),
           (''properties'', JObj [(''count'', JObj [(''type'', JStr ''integer''),
                                                    (''description'', JNum 5)])]),
           (''required'', JArr [JStr ''count''])]"

definition flow_entries :: "(string \<times> dyn_entry) list" where
  "flow_entries =
     [(''payload'', Decl \<lparr>ptype = OBJECT, description = None, required = True,
                          defaultValue = Some payload_descriptor, staticOptions = None\<rparr>),
      (''raw'', Decl \<lparr>ptype = JSON, description = None, required = True,
                      defaultValue = Some (JObj [(''name'', JStr ''Ann'')]),
                      staticOptions = None\<rparr>),
      (''note'', Malformed),
      (''title'', Decl \<lparr>ptype = SHORT_TEXT, description = None, required = True,
                        defaultValue = Some (JStr ''Untitled''), staticOptions = None\<rparr>),
      (''extra'', Decl \<lparr>ptype = OBJECT, description = None, required = True,
                        defaultValue = Some described_descriptor, staticOptions = None\<rparr>)]"

section \<open>Facts about objects\<close>

lemma map_of_obj_set: "map_of (obj_set k v ob) = (map_of ob)(k \<mapsto> v)"
  by (simp add: obj_set_def update_conv')

lemma keys_obj_set:
  "map fst (obj_set k v ob) = (if k \<in> set (map fst ob) then map fst ob else map fst ob @ [k])"
  by (simp add: obj_set_def update_keys)

lemma set_keys_obj_set: "fst ` set (obj_set k v ob) = insert k (fst ` set ob)"
  by (simp add: obj_set_def dom_update)

lemma spread_Cons: "spread a (x # b) = spread (obj_set (fst x) (snd x) a) b"
  by (simp add: spread_def case_prod_beta)

lemma spread_Nil: "spread a [] = a"
  by (simp add: spread_def)

lemma map_of_spread: "map_of (spread a b) = map_of a ++ map_of (rev b)"
proof (induction b arbitrary: a)
  case Nil
  show ?case by (simp add: spread_Nil)
next
  case (Cons x b)
  have "map_of (spread a (x # b)) = map_of (obj_set (fst x) (snd x) a) ++ map_of (rev b)"
    by (simp only: spread_Cons Cons.IH)
  also have "\<dots> = map_of a ++ map_of (rev (x # b))"
    by (cases x) (auto simp: map_of_obj_set fun_eq_iff map_add_def split: option.splits)
  finally show ?case .
qed

lemma set_keys_spread: "fst ` set (spread a b) = fst ` set a \<union> fst ` set b"
  by (induction b arbitrary: a) (auto simp: spread_Nil spread_Cons set_keys_obj_set)

lemma map_of_Some_key: "map_of ex k = Some v \<Longrightarrow> k \<in> fst ` set ex"
  by (induction ex) (auto split: if_splits)

lemma distinct_map_of_rev: "distinct (map fst xs) \<Longrightarrow> map_of (rev xs) = map_of xs"
proof (induction xs)
  case Nil
  show ?case by simp
next
  case (Cons x xs)
  obtain k v where x: "x = (k, v)" by (cases x)
  from Cons.prems x have "map_of xs k = None"
    by (simp add: map_of_eq_None_iff)
  moreover have "map_of (rev xs) = map_of xs" using Cons by simp
  ultimately show ?case
    unfolding x by (auto simp: fun_eq_iff map_add_def split: option.splits)
qed

lemma map_of_Some_lift:
  "map_of xs k = Some raw \<Longrightarrow> map_of (map (\<lambda>(k, v). (k, Some v)) xs) k = Some (Some raw)"
  by (induction xs) (auto split: if_splits)

section \<open>The reconciliation ladder\<close>

lemma startsWith_iff: "startsWith s p \<longleftrightarrow> (\<exists>suf. s = p @ suf)"
proof
  assume "startsWith s p"
  then have "s = p @ drop (length p) s"
    by (metis append_take_drop_id startsWith_def)
  then show "\<exists>suf. s = p @ suf" ..
next
  assume "\<exists>suf. s = p @ suf"
  then show "startsWith s p" by (auto simp: startsWith_def)
qed

lemma str_includes_iff: "str_includes s t \<longleftrightarrow> contained_in t s"
proof (induction s)
  case Nil
  show ?case by (simp add: contained_in_def)
next
  case (Cons c cs)
  show ?case
  proof
    assume "str_includes (c # cs) t"
    then consider "startsWith (c # cs) t" | "str_includes cs t" by auto
    then show "contained_in t (c # cs)"
    proof cases
      case 1
      then obtain suf where "c # cs = t @ suf" using startsWith_iff by blast
      then have "c # cs = [] @ t @ suf" by simp
      then show ?thesis unfolding contained_in_def by blast
    next
      case 2
      with Cons.IH obtain pre suf where "cs = pre @ t @ suf" unfolding contained_in_def by blast
      then have "c # cs = (c # pre) @ t @ suf" by simp
      then show ?thesis unfolding contained_in_def by blast
    qed
  next
    assume "contained_in t (c # cs)"
    then obtain pre suf where e: "c # cs = pre @ t @ suf" unfolding contained_in_def by blast
    show "str_includes (c # cs) t"
    proof (cases pre)
      case Nil
      with e have "startsWith (c # cs) t" using startsWith_iff by auto
      then show ?thesis by simp
    next
      case (Cons a pre')
      with e have "cs = pre' @ t @ suf" by simp
      then have "contained_in t cs" unfolding contained_in_def by blast
      with Cons.IH show ?thesis by simp
    qed
  qed
qed

lemma sharedKey_truthy_iff:
  assumes "[] \<notin> set (js_keys extracted)"
  shows "sharedKey_truthy extracted optionValue
     \<longleftrightarrow> (\<exists>k\<in>set (js_keys extracted). key_matches extracted optionValue k)"
proof (cases "sharedKey extracted optionValue")
  case None
  then have "\<forall>k\<in>set (js_keys extracted). \<not> key_matches extracted optionValue k"
    by (simp add: sharedKey_def find_None_iff)
  with None show ?thesis
    by (simp add: sharedKey_truthy_def)
next
  case (Some k)
  then have "k \<in> set (js_keys extracted)" "key_matches extracted optionValue k"
    unfolding sharedKey_def by (auto simp: find_Some_iff)
  with Some assms show ?thesis
    by (auto simp: sharedKey_truthy_def)
qed

lemma matchDropdownValue_ladder:
  assumes "options \<noteq> []" and "[] \<notin> set (js_keys extracted)"
  shows "matchDropdownValue extracted options = ladder extracted options"
proof -
  have shared: "(\<lambda>opt. is_object (val opt) \<and> sharedKey_truthy extracted (val opt))
      = (\<lambda>opt. is_object (val opt) \<and> (\<exists>k\<in>set (js_keys extracted). key_matches extracted (val opt) k))"
    using sharedKey_truthy_iff[OF assms(2)] by simp
  have rung4: "(if is_object extracted
          then find (\<lambda>opt. is_object (val opt) \<and> sharedKey_truthy extracted (val opt)) options
          else None)
     = find (\<lambda>opt. shares_key_with_equal_value extracted (val opt)) options"
  proof (cases "is_object extracted")
    case True
    then show ?thesis by (simp add: shared shares_key_with_equal_value_def)
  next
    case False
    then have "find (\<lambda>opt. shares_key_with_equal_value extracted (val opt)) options = None"
      by (simp add: find_None_iff shares_key_with_equal_value_def)
    with False show ?thesis by simp
  qed
  show ?thesis
    unfolding matchDropdownValue_def ladder_def rung4 Let_def str_includes_iff string_form_def
    using assms(1) by simp
qed

lemma matchDropdownValue_examples:
  "matchDropdownValue (JStr ''paris'')
     [\<lparr>label = ''Paris'', val = JStr ''PAR''\<rparr>, \<lparr>label = ''London'', val = JStr ''LON''\<rparr>] = JStr ''PAR''"
  "matchDropdownValue (JStr ''I live in Paris'')
     [\<lparr>label = ''Paris'', val = JStr ''PAR''\<rparr>, \<lparr>label = ''London'', val = JStr ''LON''\<rparr>] = JStr ''PAR''"
  "matchDropdownValue (JStr ''Tokyo'')
     [\<lparr>label = ''Paris'', val = JStr ''PAR''\<rparr>, \<lparr>label = ''London'', val = JStr ''LON''\<rparr>] = JStr ''PAR''"
  by code_simp+

text \<open>
  C1. The Value Reconciler returns the first match of the ladder: an option of equal
  value, of equal label (case-insensitively), of a label contained in the extracted
  value's string form, an option sharing a key with an equal value when both are keyed
  structures, else the first option. The code is the ladder whenever no key of the
  extracted value is the empty string (\<open>matchDropdownValue_ladder\<close>), and the three
  examples hold (\<open>matchDropdownValue_examples\<close>). It misses rung 4 when the shared key
  it finds is the empty string, because it tests the truthiness of the key: here the
  second option shares the key \<open>""\<close> with the equal value 1, no earlier rung matches,
  and the first option's value is returned, where the ladder gives the second option's.
\<close>

theorem matchDropdownValue_empty_shared_key:
  "matchDropdownValue (JObj [('''', JNum 1)])
     [\<lparr>label = ''zzz'', val = JObj [(''q'', JNum 0)]\<rparr>,
      \<lparr>label = ''yyy'', val = JObj [('''', JNum 1), (''b'', JNum 3)]\<rparr>]
   = JObj [(''q'', JNum 0)]
   \<and> shares_key_with_equal_value (JObj [('''', JNum 1)]) (JObj [('''', JNum 1), (''b'', JNum 3)])
   \<and> \<not> shares_key_with_equal_value (JObj [('''', JNum 1)]) (JObj [(''q'', JNum 0)])
   \<and> ladder (JObj [('''', JNum 1)])
       [\<lparr>label = ''zzz'', val = JObj [(''q'', JNum 0)]\<rparr>,
        \<lparr>label = ''yyy'', val = JObj [('''', JNum 1), (''b'', JNum 3)]\<rparr>]
     = JObj [('''', JNum 1), (''b'', JNum 3)]"
  unfolding ladder_def str_includes_iff[symmetric] by code_simp

section \<open>The reconciliation loop\<close>

lemma reconcile_keys:
  "reconcile_details isObj details ex = Inr ex' \<Longrightarrow> map fst ex' = map fst ex"
proof (induction details arbitrary: ex)
  case Nil then show ?case by simp
next
  case (Cons d ds)
  then show ?case
    by (auto split: option.splits if_splits simp: keys_obj_set dest!: map_of_SomeD) (metis fst_conv image_eqI)
qed

lemma reconcile_details_skip:
  "\<not> (\<exists>os v. detail_options d = Some os \<and> os \<noteq> [] \<and> map_of ex (detail_name d) = Some v) \<Longrightarrow>
   reconcile_details isObj (d # ds) ex = Inr ex' \<Longrightarrow> reconcile_details isObj ds ex = Inr ex'"
  by (cases "detail_options d") (auto split: option.splits if_splits)

lemma reconcile_details_hit:
  "detail_options d = Some os \<Longrightarrow> os \<noteq> [] \<Longrightarrow> map_of ex (detail_name d) = Some v \<Longrightarrow>
   reconcile_details isObj (d # ds) ex = Inr ex' \<Longrightarrow>
   reconcile_details isObj ds (obj_set (detail_name d) (matchDropdownValue v os) ex) = Inr ex'"
  by (auto split: if_splits)

lemma reconcile_details_changes:
  "reconcile_details isObj details ex = Inr ex' \<Longrightarrow> map_of ex' k \<noteq> map_of ex k \<Longrightarrow>
     (\<exists>d\<in>set details. detail_name d = k \<and> (\<exists>os. detail_options d = Some os \<and> os \<noteq> []))
     \<and> k \<in> fst ` set ex"
proof (induction details arbitrary: ex)
  case Nil
  then show ?case by simp
next
  case (Cons d ds)
  show ?case
  proof (cases "\<exists>os v. detail_options d = Some os \<and> os \<noteq> [] \<and> map_of ex (detail_name d) = Some v")
    case False
    then have "reconcile_details isObj ds ex = Inr ex'"
      using Cons.prems(1) by (rule reconcile_details_skip)
    from Cons.IH[OF this Cons.prems(2)] show ?thesis by simp
  next
    case True
    then obtain os v where d: "detail_options d = Some os" "os \<noteq> []"
      "map_of ex (detail_name d) = Some v" by blast
    let ?ex1 = "obj_set (detail_name d) (matchDropdownValue v os) ex"
    have run: "reconcile_details isObj ds ?ex1 = Inr ex'"
      using d Cons.prems(1) by (rule reconcile_details_hit)
    have inkeys: "detail_name d \<in> fst ` set ex"
      using d(3) by (rule map_of_Some_key)
    show ?thesis
    proof (cases "map_of ex' k = map_of ?ex1 k")
      case False
      from Cons.IH[OF run False]
      have 1: "\<exists>d\<in>set ds. detail_name d = k \<and> (\<exists>os. detail_options d = Some os \<and> os \<noteq> [])"
        and 2: "k \<in> fst ` set ?ex1" by simp_all
      from 2 inkeys have "k \<in> fst ` set ex" by (simp add: set_keys_obj_set insert_absorb)
      with 1 show ?thesis by simp
    next
      case True
      have "k = detail_name d"
      proof (rule ccontr)
        assume "k \<noteq> detail_name d"
        then have "map_of ?ex1 k = map_of ex k" by (simp add: map_of_obj_set)
        with True Cons.prems(2) show False by simp
      qed
      with d inkeys show ?thesis by simp
    qed
  qed
qed

lemma reconcile_keeps_raw:
  assumes run: "reconcile_details isObj details extracted = Inr extracted'"
    and dist: "distinct (map fst extracted)"
    and raw: "map_of extracted k = Some raw"
    and noopts: "\<forall>d\<in>set details. detail_name d = k \<longrightarrow> detail_options d = None \<or> detail_options d = Some []"
  shows "map_of (merge_extracted result extracted') k = Some (Some raw)"
proof -
  have "map_of extracted' k = map_of extracted k"
  proof (rule ccontr)
    assume "map_of extracted' k \<noteq> map_of extracted k"
    from reconcile_details_changes[OF run this]
    obtain d os where "d \<in> set details" "detail_name d = k" "detail_options d = Some os" "os \<noteq> []"
      by blast
    with noopts show False by auto
  qed
  then have same: "map_of extracted' k = Some raw" using raw by simp
  let ?m = "map (\<lambda>(k, v). (k, Some v)) extracted'"
  have "map fst ?m = map fst extracted'" by (simp add: case_prod_beta comp_def)
  then have "distinct (map fst ?m)" using dist reconcile_keys[OF run] by simp
  then have "map_of (rev ?m) = map_of ?m" by (rule distinct_map_of_rev)
  moreover have "map_of ?m k = Some (Some raw)" using same by (rule map_of_Some_lift)
  ultimately show ?thesis
    by (simp add: merge_extracted_def map_of_spread)
qed

text \<open>
  C10. With an empty option list the reconciler returns the extracted value unchanged.
  The orchestrator's reconciliation loop keeps the keys of the extracted object and
  changes the value of a key only when a property detail of that name carries a non-empty
  option list and the key is in the extracted object; so a property whose details carry
  no options keeps the model's raw value, also in the accumulator after the merge (the
  members of an object have distinct keys).
\<close>

theorem reconciler_only_for_optioned_properties:
  assumes "reconcile_details isObj details extracted = Inr extracted'"
  shows "matchDropdownValue v [] = v
    \<and> map fst extracted' = map fst extracted
    \<and> (\<forall>k. map_of extracted' k \<noteq> map_of extracted k \<longrightarrow>
          (\<exists>d\<in>set details. detail_name d = k \<and> (\<exists>os. detail_options d = Some os \<and> os \<noteq> []))
          \<and> k \<in> fst ` set extracted)
    \<and> (\<forall>k raw. distinct (map fst extracted) \<and> map_of extracted k = Some raw
          \<and> (\<forall>d\<in>set details. detail_name d = k \<longrightarrow> detail_options d = None \<or> detail_options d = Some [])
          \<longrightarrow> map_of (merge_extracted result extracted') k = Some (Some raw))"
proof (intro conjI allI impI)
  show "matchDropdownValue v [] = v" by (simp add: matchDropdownValue_def)
  show "map fst extracted' = map fst extracted" using assms by (rule reconcile_keys)
next
  fix k assume "map_of extracted' k \<noteq> map_of extracted k"
  from reconcile_details_changes[OF assms this]
  show "\<exists>d\<in>set details. detail_name d = k \<and> (\<exists>os. detail_options d = Some os \<and> os \<noteq> [])"
    and "k \<in> fst ` set extracted" by blast+
next
  fix k raw
  assume h: "distinct (map fst extracted) \<and> map_of extracted k = Some raw
          \<and> (\<forall>d\<in>set details. detail_name d = k \<longrightarrow> detail_options d = None \<or> detail_options d = Some [])"
  show "map_of (merge_extracted result extracted') k = Some (Some raw)"
    using reconcile_keeps_raw[OF assms] h by blast
qed

theorem reconciler_only_for_optioned_properties_witness:
  "reconcile_details True
     [\<lparr>detail_name = ''note'', detail_type = SHORT_TEXT, detail_description = None,
       detail_options = None, detail_defaultValue = None\<rparr>,
      \<lparr>detail_name = ''city'', detail_type = DROPDOWN, detail_description = None,
       detail_options = Some [\<lparr>label = ''Paris'', val = JStr ''PAR''\<rparr>],
       detail_defaultValue = None\<rparr>]
     [(''note'', JStr ''Paris''), (''city'', JStr ''paris'')]
   = Inr [(''note'', JStr ''Paris''), (''city'', JStr ''PAR'')]
   \<and> map_of (merge_extracted [(''auth'', Some (JStr ''k''))]
        [(''note'', JStr ''Paris''), (''city'', JStr ''PAR'')]) ''note'' = Some (Some (JStr ''Paris''))"
proof -
  let ?details = "[\<lparr>detail_name = ''note'', detail_type = SHORT_TEXT, detail_description = None,
       detail_options = None, detail_defaultValue = None\<rparr>,
      \<lparr>detail_name = ''city'', detail_type = DROPDOWN, detail_description = None,
       detail_options = Some [\<lparr>label = ''Paris'', val = JStr ''PAR''\<rparr>],
       detail_defaultValue = None\<rparr>]"
  let ?ex = "[(''note'', JStr ''Paris''), (''city'', JStr ''paris'')]"
  let ?ex' = "[(''note'', JStr ''Paris''), (''city'', JStr ''PAR'')]"
  have run: "reconcile_details True ?details ?ex = Inr ?ex'"
    by code_simp
  have "\<forall>k raw. distinct (map fst ?ex) \<and> map_of ?ex k = Some raw
          \<and> (\<forall>d\<in>set ?details. detail_name d = k \<longrightarrow> detail_options d = None \<or> detail_options d = Some [])
          \<longrightarrow> map_of (merge_extracted [(''auth'', Some (JStr ''k''))] ?ex') k = Some (Some raw)"
    using reconciler_only_for_optioned_properties[OF run, of JNull "[(''auth'', Some (JStr ''k''))]"]
    by blast
  then have "map_of (merge_extracted [(''auth'', Some (JStr ''k''))] ?ex') ''note'' = Some (Some (JStr ''Paris''))"
    by simp
  with run show ?thesis by simp
qed

section \<open>The post-processing of a schema\<close>

lemma number_examples:
  "accepts (finish_schema \<lparr>ptype = NUMBER, description = None, required = True,
              defaultValue = None, staticOptions = None\<rparr> ZNumber) (Some (JNum 42))"
  "\<not> accepts (finish_schema \<lparr>ptype = NUMBER, description = None, required = True,
              defaultValue = None, staticOptions = None\<rparr> ZNumber) (Some (JStr ''42''))"
  "\<not> accepts (finish_schema \<lparr>ptype = NUMBER, description = None, required = True,
              defaultValue = None, staticOptions = None\<rparr> ZNumber) (Some JNull)"
  "accepts (finish_schema \<lparr>ptype = NUMBER, description = None, required = False,
              defaultValue = None, staticOptions = None\<rparr> ZNumber) (Some JNull)"
  "accepts (finish_schema \<lparr>ptype = NUMBER, description = None, required = False,
              defaultValue = None, staticOptions = None\<rparr> ZNumber) (Some (JNum 42))"
  by (simp_all add: finish_schema_def)

lemma propertyToSchema_postprocessed:
  assumes "ptype p \<notin> {ARRAY, DYNAMIC, OAUTH2, BASIC_AUTH, CUSTOM_AUTH, SECRET_TEXT}"
  shows "\<exists>s. propertyToSchema fuel e acc name p = Some (Inr (finish_schema p s))"
  using assms by (cases "ptype p") (auto simp: propertyToSchema.simps Let_def)

lemma propertyToSchema_dynamic_postprocessed:
  assumes "ptype p = DYNAMIC" and "propertyToSchema fuel e acc name p = Some (Inr s')"
  shows "\<exists>s. s' = finish_schema p s"
  using assms
  by (cases fuel) (auto simp: propertyToSchema.simps split: option.splits sum.splits)

lemma finish_schema_shape:
  "finish_schema p s =
     (if required p
      then (case description p of Some d \<Rightarrow> if d \<noteq> [] then describe (JStr d) s else s | None \<Rightarrow> s)
      else ZNullable
             (case description p of Some d \<Rightarrow> if d \<noteq> [] then describe (JStr d) s else s | None \<Rightarrow> s))"
  by (simp add: finish_schema_def Let_def)

lemma auth_types_unsupported:
  assumes "ptype p \<in> {OAUTH2, BASIC_AUTH, CUSTOM_AUTH, SECRET_TEXT}"
  shows "propertyToSchema fuel e acc name p
     = Some (Inl (Error (''Unsupported property type: '' @ type_name (ptype p))))"
  using assms by (auto simp: propertyToSchema.simps)

text \<open>
  C5. Every supported property type gets its description attached and is nullable exactly
  when it is not required. This holds of every case of the switch that reaches the
  post-processing (\<open>propertyToSchema_postprocessed\<close>, \<open>finish_schema_shape\<close>), and the
  number examples hold with absence read as \<open>null\<close> (\<open>number_examples\<close>). The \<open>ARRAY\<close>
  case returns from the switch before the post-processing: an optional array property
  with a description gets the bare schema, where the post-processing would give a
  nullable, described one.
\<close>

theorem propertyToSchema_array_skips_postprocessing:
  "propertyToSchema fuel e acc propertyName
     \<lparr>ptype = ARRAY, description = Some ''Tags'', required = False, defaultValue = None,
      staticOptions = None\<rparr> = Some (Inr (ZArray ZString))
   \<and> finish_schema \<lparr>ptype = ARRAY, description = Some ''Tags'', required = False,
        defaultValue = None, staticOptions = None\<rparr> (ZArray ZString)
     = ZNullable (ZDescribed (JStr ''Tags'') (ZArray ZString))"
  by (simp add: propertyToSchema.simps finish_schema_def)

section \<open>Object schemas and default values\<close>

lemma obj_set_fresh: "k \<notin> fst ` set ob \<Longrightarrow> obj_set k v ob = ob @ [(k, v)]"
  by (induction ob) (auto simp: obj_set_def)

lemma field_schema_derived:
  "fieldDef \<noteq> JNull \<Longrightarrow> field_schema rs f fieldDef = Inr (derived_field_schema rs f fieldDef)"
  by (auto simp: field_schema_def derived_field_schema_def derived_field_type_def Let_def
           split: option.splits json.splits)

lemma field_schema_null:
  "field_schema rs f JNull = Inl (Error ''Cannot read properties of null (reading 'type')'')"
  by (simp add: field_schema_def)

lemma field_schema_examples:
  "field_schema [JStr ''a''] ''a'' (JObj [(''type'', JStr ''number''), (''description'', JNum 5)])
     = Inr (ZDescribed (JNum 5) ZNumber)"
  "field_schema [JStr ''a''] ''a'' (JObj [(''type'', JStr ''number''), (''description'', JNum 0)])
     = Inr ZNumber"
  "field_schema [] ''a'' (JObj [(''type'', JStr ''integer''), (''description'', JStr ''how many'')])
     = Inr (ZNullable (ZDescribed (JStr ''how many'') ZNumber))"
  "field_schema [] ''a'' (JObj [(''type'', JStr ''boolean'')]) = Inr (ZNullable ZBoolean)"
  "field_schema [] ''a'' (JObj [(''type'', JStr ''array'')]) = Inr (ZNullable (ZArray ZUnknown))"
  "field_schema [] ''a'' (JObj [(''type'', JStr ''date'')]) = Inr (ZNullable ZString)"
  "field_schema [] ''a'' (JStr ''number'') = Inr (ZNullable ZString)"
  by (simp_all add: field_schema_def)

lemma shape_of_fields_map:
  "distinct (map fst fs) \<Longrightarrow> fst ` set fs \<inter> fst ` set shape = {} \<Longrightarrow>
   JNull \<notin> snd ` set fs \<Longrightarrow>
   shape_of_fields rs fs shape
     = Inr (shape @ map (\<lambda>(f, fd). (f, derived_field_schema rs f fd)) fs)"
proof (induction fs arbitrary: shape)
  case Nil
  show ?case by simp
next
  case (Cons x fs)
  obtain f fd where x: "x = (f, fd)" by (cases x)
  from Cons.prems x have fd: "fd \<noteq> JNull" and fresh: "f \<notin> fst ` set shape" by auto
  have d: "distinct (map fst fs)" using Cons.prems(1) by simp
  have i: "fst ` set fs \<inter> fst ` set (shape @ [(f, derived_field_schema rs f fd)]) = {}"
    using Cons.prems(1,2) x by auto
  have n: "JNull \<notin> snd ` set fs" using Cons.prems(3) by auto
  show ?case
    unfolding x
    by (simp add: field_schema_derived[OF fd] obj_set_fresh[OF fresh] Cons.IH[OF d i n])
qed

lemma tryBuildSchemaFromDefault_derived:
  assumes "js_get (JObj d) ''type'' = Some (JStr ''object'')"
    and "js_get (JObj d) ''properties'' = Some props" and "is_object props"
    and "distinct (map fst (js_entries props))" and "JNull \<notin> snd ` set (js_entries props)"
    and "rs = (case js_get (JObj d) ''required'' of Some (JArr r) \<Rightarrow> r | _ \<Rightarrow> [])"
  shows "tryBuildSchemaFromDefault (JObj d)
     = Inr (Some (ZObject (map (\<lambda>(f, fd). (f, derived_field_schema rs f fd)) (js_entries props)) Loose))"
proof -
  have "shape_of_fields rs (js_entries props) []
      = Inr ([] @ map (\<lambda>(f, fd). (f, derived_field_schema rs f fd)) (js_entries props))"
    by (rule shape_of_fields_map) (use assms in simp_all)
  then show ?thesis
    using assms(1,2,3,6) by (simp add: tryBuildSchemaFromDefault_def)
qed

lemma tryBuildSchemaFromDefault_unrecognized:
  assumes "\<not> is_object dv \<or> js_get dv ''type'' \<noteq> Some (JStr ''object'')
           \<or> (\<forall>props. js_get dv ''properties'' = Some props \<longrightarrow> \<not> is_object props)"
  shows "tryBuildSchemaFromDefault dv = Inr None"
  using assms by (auto simp: tryBuildSchemaFromDefault_def split: option.splits)

lemma propertyToSchema_object:
  "ptype p = OBJECT \<or> ptype p = JSON \<Longrightarrow>
   propertyToSchema fuel e acc name p = Some (Inr (finish_schema p (ZObject [] Loose)))"
  by (auto simp: propertyToSchema.simps)

lemma propertyToSchema_ignores_default:
  "propertyToSchema fuel e acc name (p\<lparr>defaultValue := dv\<rparr>) = propertyToSchema fuel e acc name p"
  by (cases "ptype p"; cases fuel)
     (simp_all add: propertyToSchema.simps finish_schema_def loadDropdownLabels_def
        split: option.splits sum.splits)

lemma dynamic_fields_default:
  assumes "ptype v = OBJECT \<or> ptype v = JSON" and "p2s key v = Some (Inr s)"
    and "defaultValue v = Some dv" and "dv \<noteq> JNull"
  shows "tryBuildSchemaFromDefault dv = Inr (Some sd) \<Longrightarrow>
           dynamic_fields p2s ((key, Decl v) # rest) sch = dynamic_fields p2s rest (obj_set key sd sch)"
    and "tryBuildSchemaFromDefault dv = Inr None \<Longrightarrow>
           dynamic_fields p2s ((key, Decl v) # rest) sch
             = dynamic_fields p2s rest
                 (obj_set key (describe (JStr (''Expected structure: ''
                     @ (case dv of JStr hint \<Rightarrow> hint | _ \<Rightarrow> stringify dv))) s) sch)"
  using assms by auto

lemma dynamic_fields_kept:
  assumes "p2s key v = Some (Inr s)"
    and "defaultValue v = None \<or> defaultValue v = Some JNull \<or> (ptype v \<noteq> OBJECT \<and> ptype v \<noteq> JSON)"
  shows "dynamic_fields p2s ((key, Decl v) # rest) sch = dynamic_fields p2s rest (obj_set key s sch)"
  using assms by (auto split: option.splits)

lemma buildDynamicSchema_open:
  assumes "executeProps_dynamic e name acc = Inr None
           \<or> (\<exists>entries. executeProps_dynamic e name acc = Inr (Some entries)
                \<and> has_key ''disabled'' entries)"
  shows "buildDynamicSchema p2s e name acc = Some (Inr (ZObject [] Loose))"
  using assms by (auto simp: buildDynamicSchema_def)

lemma buildDynamicSchema_fields:
  assumes "executeProps_dynamic e name acc = Inr (Some entries)"
    and "\<not> has_key ''disabled'' entries" and "dynamic_fields p2s entries [] = Some (Inr fs)"
  shows "buildDynamicSchema p2s e name acc = Some (Inr (ZObject fs Loose))"
  using assms by (simp add: buildDynamicSchema_def)

text \<open>
  C4 (amended). For every property of type object or JSON blob, \<open>propertyToSchema\<close> gives
  the open object schema with the post-processing, whatever the default value: the schema
  of a property of any type does not depend on the property's own default value. The
  default value counts only in \<open>buildDynamicSchema\<close>, for a sub-property of type object
  or JSON blob that a dynamic property discovers. A descriptor (an object of type
  \<open>object\<close> whose
  \<open>properties\<close> are an object, with distinct fields, none null) gives the open object
  schema derived from it field by field, in the order of the fields; any other value is no
  descriptor. In the loop over the discovered sub-properties, an object or JSON
  sub-property whose default is present and not null gets the schema derived from the
  default when it is a descriptor, and else keeps its schema and gets the description
  \<open>Expected structure:\<close> followed by the default (a string as it is, any other value
  serialized, its numbers being safe integers); every other sub-property, also one of
  another type with a default, keeps the schema that \<open>propertyToSchema\<close> gave it, and a
  malformed member is skipped. The loop is not reached, and the schema is the bare open
  object, when the option loader returns no object or an object with a member named
  \<open>disabled\<close>; otherwise the schema is the open object over the loop's fields.
\<close>

theorem object_schema_from_default:
  "(\<forall>p. ptype p = OBJECT \<or> ptype p = JSON \<longrightarrow>
        propertyToSchema fuel e acc name p = Some (Inr (finish_schema p (ZObject [] Loose))))
   \<and> (\<forall>d props. js_get (JObj d) ''type'' = Some (JStr ''object'')
          \<and> js_get (JObj d) ''properties'' = Some props \<and> is_object props
          \<and> distinct (map fst (js_entries props)) \<and> JNull \<notin> snd ` set (js_entries props) \<longrightarrow>
        tryBuildSchemaFromDefault (JObj d)
          = Inr (Some (ZObject
              (map (\<lambda>(f, fd). (f, derived_field_schema
                      (case js_get (JObj d) ''required'' of Some (JArr r) \<Rightarrow> r | _ \<Rightarrow> []) f fd))
                 (js_entries props)) Loose)))
   \<and> (\<forall>dv. \<not> is_object dv \<or> js_get dv ''type'' \<noteq> Some (JStr ''object'')
              \<or> (\<forall>props. js_get dv ''properties'' = Some props \<longrightarrow> \<not> is_object props) \<longrightarrow>
        tryBuildSchemaFromDefault dv = Inr None)
   \<and> (\<forall>v s dv. (ptype v = OBJECT \<or> ptype v = JSON) \<and> p2s key v = Some (Inr s)
          \<and> defaultValue v = Some dv \<and> dv \<noteq> JNull \<longrightarrow>
        (\<forall>sd. tryBuildSchemaFromDefault dv = Inr (Some sd) \<longrightarrow>
           dynamic_fields p2s ((key, Decl v) # rest) sch = dynamic_fields p2s rest (obj_set key sd sch))
        \<and> (tryBuildSchemaFromDefault dv = Inr None \<and> safe_integers dv \<longrightarrow>
           dynamic_fields p2s ((key, Decl v) # rest) sch
             = dynamic_fields p2s rest
                 (obj_set key (describe (JStr (''Expected structure: ''
                     @ (case dv of JStr hint \<Rightarrow> hint | _ \<Rightarrow> stringify dv))) s) sch)))
   \<and> (\<forall>v s. p2s key v = Some (Inr s)
          \<and> (defaultValue v = None \<or> defaultValue v = Some JNull
              \<or> (ptype v \<noteq> OBJECT \<and> ptype v \<noteq> JSON)) \<longrightarrow>
        dynamic_fields p2s ((key, Decl v) # rest) sch = dynamic_fields p2s rest (obj_set key s sch))
   \<and> dynamic_fields p2s ((key, Malformed) # rest) sch = dynamic_fields p2s rest sch
   \<and> (executeProps_dynamic e name acc = Inr None
        \<or> (\<exists>entries. executeProps_dynamic e name acc = Inr (Some entries)
              \<and> has_key ''disabled'' entries) \<longrightarrow>
      buildDynamicSchema p2s e name acc = Some (Inr (ZObject [] Loose)))
   \<and> (\<forall>entries fs. executeProps_dynamic e name acc = Inr (Some entries)
          \<and> \<not> has_key ''disabled'' entries \<and> dynamic_fields p2s entries [] = Some (Inr fs) \<longrightarrow>
        buildDynamicSchema p2s e name acc = Some (Inr (ZObject fs Loose)))
   \<and> (\<forall>p dv. propertyToSchema fuel e acc name (p\<lparr>defaultValue := dv\<rparr>)
          = propertyToSchema fuel e acc name p)"
proof (intro conjI allI impI)
  fix p :: PieceProperty assume "ptype p = OBJECT \<or> ptype p = JSON"
  then show "propertyToSchema fuel e acc name p = Some (Inr (finish_schema p (ZObject [] Loose)))"
    by (rule propertyToSchema_object)
next
  fix d props
  assume "js_get (JObj d) ''type'' = Some (JStr ''object'')
          \<and> js_get (JObj d) ''properties'' = Some props \<and> is_object props
          \<and> distinct (map fst (js_entries props)) \<and> JNull \<notin> snd ` set (js_entries props)"
  then show "tryBuildSchemaFromDefault (JObj d)
          = Inr (Some (ZObject
              (map (\<lambda>(f, fd). (f, derived_field_schema
                      (case js_get (JObj d) ''required'' of Some (JArr r) \<Rightarrow> r | _ \<Rightarrow> []) f fd))
                 (js_entries props)) Loose))"
    by (intro tryBuildSchemaFromDefault_derived) simp_all
next
  fix dv
  assume "\<not> is_object dv \<or> js_get dv ''type'' \<noteq> Some (JStr ''object'')
              \<or> (\<forall>props. js_get dv ''properties'' = Some props \<longrightarrow> \<not> is_object props)"
  then show "tryBuildSchemaFromDefault dv = Inr None"
    by (rule tryBuildSchemaFromDefault_unrecognized)
next
  fix v s dv sd
  assume h: "(ptype v = OBJECT \<or> ptype v = JSON) \<and> p2s key v = Some (Inr s)
          \<and> defaultValue v = Some dv \<and> dv \<noteq> JNull"
    and t: "tryBuildSchemaFromDefault dv = Inr (Some sd)"
  from h have "ptype v = OBJECT \<or> ptype v = JSON" "p2s key v = Some (Inr s)"
    "defaultValue v = Some dv" "dv \<noteq> JNull" by simp_all
  then show "dynamic_fields p2s ((key, Decl v) # rest) sch = dynamic_fields p2s rest (obj_set key sd sch)"
    using t by (rule dynamic_fields_default(1))
next
  fix v s dv
  assume h: "(ptype v = OBJECT \<or> ptype v = JSON) \<and> p2s key v = Some (Inr s)
          \<and> defaultValue v = Some dv \<and> dv \<noteq> JNull"
    and t: "tryBuildSchemaFromDefault dv = Inr None \<and> safe_integers dv"
  from h have "ptype v = OBJECT \<or> ptype v = JSON" "p2s key v = Some (Inr s)"
    "defaultValue v = Some dv" "dv \<noteq> JNull" by simp_all
  then show "dynamic_fields p2s ((key, Decl v) # rest) sch
             = dynamic_fields p2s rest
                 (obj_set key (describe (JStr (''Expected structure: ''
                     @ (case dv of JStr hint \<Rightarrow> hint | _ \<Rightarrow> stringify dv))) s) sch)"
    using t[THEN conjunct1] by (rule dynamic_fields_default(2))
next
  fix v s
  assume h: "p2s key v = Some (Inr s)
          \<and> (defaultValue v = None \<or> defaultValue v = Some JNull
              \<or> (ptype v \<noteq> OBJECT \<and> ptype v \<noteq> JSON))"
  show "dynamic_fields p2s ((key, Decl v) # rest) sch = dynamic_fields p2s rest (obj_set key s sch)"
    by (rule dynamic_fields_kept[where p2s = p2s and key = key, OF h[THEN conjunct1] h[THEN conjunct2]])
next
  show "dynamic_fields p2s ((key, Malformed) # rest) sch = dynamic_fields p2s rest sch"
    by simp
next
  assume "executeProps_dynamic e name acc = Inr None
        \<or> (\<exists>entries. executeProps_dynamic e name acc = Inr (Some entries)
              \<and> has_key ''disabled'' entries)"
  then show "buildDynamicSchema p2s e name acc = Some (Inr (ZObject [] Loose))"
    by (rule buildDynamicSchema_open)
next
  fix entries fs
  assume h: "executeProps_dynamic e name acc = Inr (Some entries)
          \<and> \<not> has_key ''disabled'' entries \<and> dynamic_fields p2s entries [] = Some (Inr fs)"
  show "buildDynamicSchema p2s e name acc = Some (Inr (ZObject fs Loose))"
    by (rule buildDynamicSchema_fields[OF h[THEN conjunct1] h[THEN conjunct2, THEN conjunct1]
          h[THEN conjunct2, THEN conjunct2]])
next
  fix p :: PieceProperty and dv
  show "propertyToSchema fuel e acc name (p\<lparr>defaultValue := dv\<rparr>)
          = propertyToSchema fuel e acc name p"
    by (rule propertyToSchema_ignores_default)
qed

theorem object_schema_from_default_witness:
  "tryBuildSchemaFromDefault payload_descriptor
     = Inr (Some (ZObject [(''amount'', ZNumber), (''note'', ZNullable ZString)] Loose))
   \<and> propertyToSchema 1 (dynamic_env ''flowProps'' flow_entries) [] ''flowProps''
        \<lparr>ptype = DYNAMIC, description = None, required = True, defaultValue = None,
         staticOptions = None\<rparr>
     = Some (Inr (ZObject
         [(''payload'', ZObject [(''amount'', ZNumber), (''note'', ZNullable ZString)] Loose),
          (''raw'', ZDescribed (JStr (''Expected structure: ''
                                  @ stringify (JObj [(''name'', JStr ''Ann'')])))
                      (ZObject [] Loose)),
          (''title'', ZString),
          (''extra'', ZObject [(''count'', ZDescribed (JNum 5) ZNumber)] Loose)] Loose))
   \<and> propertyToSchema 1
        (dynamic_env ''flowProps'' (flow_entries @ [(''disabled'', Decl text_property)]))
        [] ''flowProps''
        \<lparr>ptype = DYNAMIC, description = None, required = True, defaultValue = None,
         staticOptions = None\<rparr>
     = Some (Inr (ZObject [] Loose))
   \<and> dynamic_fields (propertyToSchema 0 (dynamic_env ''flowProps'' flow_entries) [])
        [(''raw'', Decl \<lparr>ptype = JSON, description = None, required = True,
                          defaultValue = Some (JObj [(''name'', JStr ''Ann'')]),
                          staticOptions = None\<rparr>)] []
     = Some (Inr [(''raw'', ZDescribed (JStr (''Expected structure: ''
                                  @ stringify (JObj [(''name'', JStr ''Ann'')])))
                      (ZObject [] Loose))])
   \<and> dynamic_fields (propertyToSchema 0 (dynamic_env ''flowProps'' flow_entries) [])
        [(''title'', Decl \<lparr>ptype = SHORT_TEXT, description = None, required = True,
                        defaultValue = Some (JStr ''Untitled''), staticOptions = None\<rparr>)] []
     = Some (Inr [(''title'', ZString)])
   \<and> buildDynamicSchema (propertyToSchema 0 (dynamic_env ''flowProps'' [(''disabled'', Malformed)]) [])
        (dynamic_env ''flowProps'' [(''disabled'', Malformed)]) ''flowProps'' []
     = Some (Inr (ZObject [] Loose))"
proof -
  let ?props = "JObj [(''amount'', JObj [(''type'', JStr ''number'')]),
                      (''note'', JObj [(''type'', JStr ''string'')])]"
  let ?d = "[(''type'', JStr ''object''), (''properties'', ?props),
             (''required'', JArr [JStr ''amount''])]"
  have pre: "js_get (JObj ?d) ''type'' = Some (JStr ''object'')
          \<and> js_get (JObj ?d) ''properties'' = Some ?props \<and> is_object ?props
          \<and> distinct (map fst (js_entries ?props)) \<and> JNull \<notin> snd ` set (js_entries ?props)"
    by simp
  note derived = object_schema_from_default[THEN conjunct2, THEN conjunct1, rule_format, OF pre]
  have a: "tryBuildSchemaFromDefault payload_descriptor
     = Inr (Some (ZObject [(''amount'', ZNumber), (''note'', ZNullable ZString)] Loose))"
    unfolding payload_descriptor_def
    by (simp add: derived derived_field_schema_def derived_field_type_def)
  have b: "propertyToSchema 1 (dynamic_env ''flowProps'' flow_entries) [] ''flowProps''
        \<lparr>ptype = DYNAMIC, description = None, required = True, defaultValue = None,
         staticOptions = None\<rparr>
     = Some (Inr (ZObject
         [(''payload'', ZObject [(''amount'', ZNumber), (''note'', ZNullable ZString)] Loose),
          (''raw'', ZDescribed (JStr (''Expected structure: ''
                                  @ stringify (JObj [(''name'', JStr ''Ann'')])))
                      (ZObject [] Loose)),
          (''title'', ZString),
          (''extra'', ZObject [(''count'', ZDescribed (JNum 5) ZNumber)] Loose)] Loose))"
    by code_simp
  have c: "propertyToSchema 1
        (dynamic_env ''flowProps'' (flow_entries @ [(''disabled'', Decl text_property)]))
        [] ''flowProps''
        \<lparr>ptype = DYNAMIC, description = None, required = True, defaultValue = None,
         staticOptions = None\<rparr>
     = Some (Inr (ZObject [] Loose))"
    by code_simp
  let ?e = "dynamic_env ''flowProps'' flow_entries"
  let ?p2s = "propertyToSchema 0 ?e []"
  let ?sample = "JObj [(''name'', JStr ''Ann'')]"
  let ?raw = "\<lparr>ptype = JSON, description = None, required = True,
               defaultValue = Some ?sample, staticOptions = None\<rparr>"
  let ?title = "\<lparr>ptype = SHORT_TEXT, description = None, required = True,
                 defaultValue = Some (JStr ''Untitled''), staticOptions = None\<rparr>"
  have raw: "(ptype ?raw = OBJECT \<or> ptype ?raw = JSON) \<and> ?p2s ''raw'' ?raw = Some (Inr (ZObject [] Loose))
          \<and> defaultValue ?raw = Some ?sample \<and> ?sample \<noteq> JNull"
    by (simp add: propertyToSchema.simps finish_schema_def)
  have sample: "tryBuildSchemaFromDefault ?sample = Inr None \<and> safe_integers ?sample"
    by (simp add: tryBuildSchemaFromDefault_def)
  note hint = object_schema_from_default[where ?p2s = "?p2s" and key = "''raw''" and rest = "[]"
      and sch = "[]", THEN conjunct2, THEN conjunct2, THEN conjunct2, THEN conjunct1,
      rule_format, OF raw, THEN conjunct2, THEN mp, OF sample]
  have d: "dynamic_fields ?p2s [(''raw'', Decl ?raw)] []
     = Some (Inr [(''raw'', ZDescribed (JStr (''Expected structure: '' @ stringify ?sample))
                      (ZObject [] Loose))])"
    using hint by (simp add: obj_set_def)
  have title: "?p2s ''title'' ?title = Some (Inr ZString)
          \<and> (defaultValue ?title = None \<or> defaultValue ?title = Some JNull
              \<or> (ptype ?title \<noteq> OBJECT \<and> ptype ?title \<noteq> JSON))"
    by (simp add: propertyToSchema.simps finish_schema_def)
  note kept = object_schema_from_default[where ?p2s = "?p2s" and key = "''title''" and rest = "[]"
      and sch = "[]", THEN conjunct2, THEN conjunct2, THEN conjunct2, THEN conjunct2,
      THEN conjunct1, rule_format, OF title]
  have e: "dynamic_fields ?p2s [(''title'', Decl ?title)] [] = Some (Inr [(''title'', ZString)])"
    using kept by (simp add: obj_set_def)
  let ?off = "dynamic_env ''flowProps'' [(''disabled'', Malformed)]"
  have off: "executeProps_dynamic ?off ''flowProps'' [] = Inr None
        \<or> (\<exists>entries. executeProps_dynamic ?off ''flowProps'' [] = Inr (Some entries)
              \<and> has_key ''disabled'' entries)"
    by (simp add: dynamic_env_def has_key_def)
  note disabled = object_schema_from_default[where e = "?off" and name = "''flowProps''"
      and acc = "[]", THEN conjunct2, THEN conjunct2, THEN conjunct2, THEN conjunct2,
      THEN conjunct2, THEN conjunct2, THEN conjunct1, THEN mp, OF off]
  have f: "buildDynamicSchema (propertyToSchema 0 ?off []) ?off ''flowProps'' []
     = Some (Inr (ZObject [] Loose))"
    by (rule disabled)
  from a b c d e f show ?thesis by (intro conjI)
qed

text \<open>
  The claim as stated fails for a property the action declares itself: its default value
  is not consulted, whether it is a descriptor or not.
\<close>

theorem toplevel_default_ignored_counterexample:
  "propertyToSchema 0 (dynamic_env ''flowProps'' []) [] ''payload''
     \<lparr>ptype = OBJECT, description = None, required = True,
      defaultValue = Some payload_descriptor, staticOptions = None\<rparr>
   = Some (Inr (ZObject [] Loose))
   \<and> tryBuildSchemaFromDefault payload_descriptor
     = Inr (Some (ZObject [(''amount'', ZNumber), (''note'', ZNullable ZString)] Loose))
   \<and> propertyToSchema 0 (dynamic_env ''flowProps'' []) [] ''payload''
     \<lparr>ptype = JSON, description = None, required = True,
      defaultValue = Some (JObj [(''name'', JStr ''Ann'')]), staticOptions = None\<rparr>
   = Some (Inr (ZObject [] Loose))"
  by code_simp

section \<open>The recovery from a fenced answer\<close>









lemma resolve_levels_step:
  assumes "collect_level fuel e ps result properties [] [] = Some (Inr (fill, details))"
    and "fill \<noteq> []"
  shows "resolve_levels fuel e instr ps (properties # levels) result calls =
     (case generate_output e (length calls) (extraction_request instr fill details result) of
        Inl err \<Rightarrow> Some (Inl err, calls @ [extraction_request instr fill details result])
      | Inr out \<Rightarrow>
          (case reconcile_details (is_object out) details (js_entries out) of
             Inl err \<Rightarrow> Some (Inl err, calls @ [extraction_request instr fill details result])
           | Inr extracted \<Rightarrow>
               resolve_levels fuel e instr ps levels (merge_extracted result extracted)
                 (calls @ [extraction_request instr fill details result])))"
  using assms by (simp add: Let_def)

lemma resolve_levels_skip:
  assumes "collect_level fuel e ps result properties [] [] = Some (Inr ([], details))"
  shows "resolve_levels fuel e instr ps (properties # levels) result calls
     = resolve_levels fuel e instr ps levels result calls"
  using assms by simp



text \<open>
  A text that starts and ends with the fences but holds a further fence inside, here in
  a string of the fenced object, is no single fenced block: the handler removes the first
  fence it finds, the closing fence stays, and the parser is handed a text that ends with
  it.
\<close>

lemma stripped_inner_fence:
  "startsWith (''```json'' @ stringify (JObj [(''a'', JStr ''```'')]) @ ''```'') ''```json''
   \<and> endsWith (''```json'' @ stringify (JObj [(''a'', JStr ''```'')]) @ ''```'') ''```''
   \<and> remove_first ''```'' (remove_first ''```json''
         (''```json'' @ stringify (JObj [(''a'', JStr ''```'')]) @ ''```''))
     = stringify (JObj [(''a'', JStr '''')]) @ ''```''"
  by code_simp

lemma recover_inner_fence:
  "recover e (NoObjectGeneratedError m True
       (Some (''```json'' @ stringify (JObj [(''a'', JStr ''```'')]) @ ''```'')))
   = JSON_parse e (stringify (JObj [(''a'', JStr '''')]) @ ''```'')"
  using stripped_inner_fence by (simp only: recover_def error.case option.case simp_thms if_True)




section \<open>The accumulator across the levels\<close>

lemma collect_level_keys:
  "collect_level fuel e ps result properties fill details = Some (Inr (fill', details')) \<Longrightarrow>
   fst ` set fill' \<subseteq> fst ` set fill
      \<union> {k \<in> set properties. \<not> has_key k result
            \<and> (\<exists>p. map_of ps k = Some p \<and> ptype p \<notin> set skipTypes)}"
proof (induction properties arbitrary: fill details)
  case Nil
  then show ?case by simp
next
  case (Cons property rest)
  from Cons.prems obtain p where p: "map_of ps property = Some p"
    by (cases "map_of ps property") auto
  show ?case
  proof (cases "ptype p \<in> set skipTypes \<or> has_key property result")
    case True
    with Cons.prems p have "collect_level fuel e ps result rest fill details = Some (Inr (fill', details'))"
      by auto
    from Cons.IH[OF this] show ?thesis by auto
  next
    case False
    with Cons.prems p obtain s d where
      run: "collect_level fuel e ps result rest (obj_set property s fill) (details @ [d])
              = Some (Inr (fill', details'))"
      by (auto split: option.splits sum.splits)
    from Cons.IH[OF run] False p show ?thesis
      by (auto simp: set_keys_obj_set)
  qed
qed

lemma collect_level_present:
  "\<forall>k\<in>set properties. has_key k result \<and> k \<in> fst ` set ps \<Longrightarrow>
   collect_level fuel e ps result properties fill details = Some (Inr (fill, details))"
proof (induction properties)
  case Nil
  show ?case by simp
next
  case (Cons property rest)
  then obtain p where "map_of ps property = Some p"
    by (cases "map_of ps property") (auto simp: map_of_eq_None_iff)
  with Cons show ?case by simp
qed

lemma requested_disjoint:
  assumes "collect_level fuel e ps result properties [] [] = Some (Inr (fill, details))"
  shows "set (map fst fill) \<inter> fst ` set result = {}"
  using collect_level_keys[OF assms] by (auto simp: has_key_def)

lemma keys_merge_extracted:
  "fst ` set (merge_extracted result extracted) = fst ` set result \<union> fst ` set extracted"
  by (simp add: merge_extracted_def set_keys_spread image_image case_prod_beta)

lemma map_of_merge_extracted_other:
  "k \<notin> fst ` set extracted \<Longrightarrow> map_of (merge_extracted result extracted) k = map_of result k"
proof -
  assume "k \<notin> fst ` set extracted"
  then have "k \<notin> fst ` set (rev (map (\<lambda>(k, v). (k, Some v)) extracted))"
    by (simp add: image_image case_prod_beta)
  then have "map_of (rev (map (\<lambda>(k, v). (k, Some v)) extracted)) k = None"
    by (rule map_of_eq_None_iff[THEN iffD2])
  then show ?thesis
    by (simp add: merge_extracted_def map_of_spread map_add_def)
qed

lemma asks_only_missing_mono:
  "fst ` set result \<subseteq> fst ` set result' \<Longrightarrow> asks_only_missing result' r \<Longrightarrow> asks_only_missing result r"
  unfolding asks_only_missing_def by (meson order.trans)

lemma extraction_request_ok:
  assumes "collect_level fuel e ps result properties [] [] = Some (Inr (fill, details))"
    and "fill \<noteq> []"
  shows "asks_only_missing result (extraction_request instr fill details result)"
  using requested_disjoint[OF assms(1)] assms(2)
  by (simp add: asks_only_missing_def extraction_request_def)

lemma reconcile_set_keys:
  "reconcile_details isObj details ex = Inr ex' \<Longrightarrow> fst ` set ex' = fst ` set ex"
  using reconcile_keys[of isObj details ex ex'] by (metis set_map)

lemma resolve_levels_cases:
  assumes "resolve_levels fuel e instr ps (properties # levels) result calls = Some (outcome, calls')"
  obtains (throws) err where "collect_level fuel e ps result properties [] [] = Some (Inl err)"
      "outcome = Inl err" "calls' = calls"
  | (skip) details where "collect_level fuel e ps result properties [] [] = Some (Inr ([], details))"
      "resolve_levels fuel e instr ps levels result calls = Some (outcome, calls')"
  | (fails) fill details err where
      "collect_level fuel e ps result properties [] [] = Some (Inr (fill, details))" "fill \<noteq> []"
      "outcome = Inl err" "calls' = calls @ [extraction_request instr fill details result]"
  | (merges) fill details out extracted where
      "collect_level fuel e ps result properties [] [] = Some (Inr (fill, details))" "fill \<noteq> []"
      "generate_output e (length calls) (extraction_request instr fill details result) = Inr out"
      "reconcile_details (is_object out) details (js_entries out) = Inr extracted"
      "resolve_levels fuel e instr ps levels (merge_extracted result extracted)
         (calls @ [extraction_request instr fill details result]) = Some (outcome, calls')"
proof (cases "collect_level fuel e ps result properties [] []")
  case None
  with assms show ?thesis by simp
next
  case (Some c)
  show ?thesis
  proof (cases c)
    case (Inl err)
    with Some assms throws show ?thesis by simp
  next
    case (Inr fd)
    obtain fill details where fd: "fd = (fill, details)" by (cases fd)
    note col = Some[unfolded Inr fd]
    show ?thesis
    proof (cases "fill = []")
      case True
      with col assms skip show ?thesis by simp
    next
      case False
      have run: "(case generate_output e (length calls) (extraction_request instr fill details result) of
          Inl err \<Rightarrow> Some (Inl err, calls @ [extraction_request instr fill details result])
        | Inr out \<Rightarrow>
            (case reconcile_details (is_object out) details (js_entries out) of
               Inl err \<Rightarrow> Some (Inl err, calls @ [extraction_request instr fill details result])
             | Inr extracted \<Rightarrow>
                 resolve_levels fuel e instr ps levels (merge_extracted result extracted)
                   (calls @ [extraction_request instr fill details result]))) = Some (outcome, calls')"
        using assms unfolding resolve_levels_step[OF col False, of instr levels calls] .
      show ?thesis
      proof (cases "generate_output e (length calls) (extraction_request instr fill details result)")
        case (Inl err)
        with run have "outcome = Inl err" "calls' = calls @ [extraction_request instr fill details result]"
          by simp_all
        with fails[OF col False] show ?thesis by blast
      next
        case out: (Inr out)
        show ?thesis
        proof (cases "reconcile_details (is_object out) details (js_entries out)")
          case (Inl err)
          with out run have "outcome = Inl err" "calls' = calls @ [extraction_request instr fill details result]"
            by simp_all
          with fails[OF col False] show ?thesis by blast
        next
          case (Inr extracted)
          with out run have "resolve_levels fuel e instr ps levels (merge_extracted result extracted)
              (calls @ [extraction_request instr fill details result]) = Some (outcome, calls')"
            by simp
          with merges[OF col False out Inr] show ?thesis by blast
        qed
      qed
    qed
  qed
qed

lemma resolve_levels_calls:
  "resolve_levels fuel e instr ps levels result calls = Some (outcome, calls') \<Longrightarrow>
   \<exists>new. calls' = calls @ new \<and> (\<forall>r\<in>set new. asks_only_missing result r)"
proof (induction levels arbitrary: result calls)
  case Nil
  then show ?case by simp
next
  case (Cons properties levels)
  from Cons.prems show ?case
  proof (cases rule: resolve_levels_cases)
    case (throws err)
    then show ?thesis by simp
  next
    case (skip details)
    from Cons.IH[OF skip(2)] show ?thesis .
  next
    case (fails fill details err)
    from extraction_request_ok[OF fails(1,2)] fails(4) show ?thesis by simp
  next
    case (merges fill details out extracted)
    let ?req = "extraction_request instr fill details result"
    from Cons.IH[OF merges(5)] obtain new where new: "calls' = (calls @ [?req]) @ new"
      "\<forall>r\<in>set new. asks_only_missing (merge_extracted result extracted) r" by blast
    have "fst ` set result \<subseteq> fst ` set (merge_extracted result extracted)"
      by (simp add: keys_merge_extracted)
    with new(2) have "\<forall>r\<in>set new. asks_only_missing result r"
      using asks_only_missing_mono by blast
    moreover have "asks_only_missing result ?req"
      by (rule extraction_request_ok[OF merges(1,2)])
    ultimately have "\<forall>r\<in>set (?req # new). asks_only_missing result r" by simp
    moreover have "calls' = calls @ (?req # new)" using new(1) by simp
    ultimately show ?thesis by blast
  qed
qed

lemma resolve_levels_grows:
  "resolve_levels fuel e instr ps levels result calls = Some (Inr result', calls') \<Longrightarrow>
   fst ` set result \<subseteq> fst ` set result'"
proof (induction levels arbitrary: result calls)
  case Nil
  then show ?case by simp
next
  case (Cons properties levels)
  from Cons.prems show ?case
  proof (cases rule: resolve_levels_cases)
    case (throws err)
    then show ?thesis by simp
  next
    case (skip details)
    from Cons.IH[OF skip(2)] show ?thesis .
  next
    case (fails fill details err)
    then show ?thesis by simp
  next
    case (merges fill details out extracted)
    from Cons.IH[OF merges(5)] show ?thesis by (simp add: keys_merge_extracted)
  qed
qed

lemma resolve_levels_keeps_values:
  assumes closed: "\<forall>n req out. generate_output e n req = Inr out
            \<longrightarrow> fst ` set (js_entries out) \<subseteq> set (prompt_propertyNames (prompt req))"
  shows "resolve_levels fuel e instr ps levels result calls = Some (Inr result', calls') \<Longrightarrow>
   k \<in> fst ` set result \<Longrightarrow> map_of result' k = map_of result k"
proof (induction levels arbitrary: result calls)
  case Nil
  then show ?case by simp
next
  case (Cons properties levels)
  from Cons.prems(1) show ?case
  proof (cases rule: resolve_levels_cases)
    case (throws err)
    then show ?thesis by simp
  next
    case (skip details)
    from Cons.IH[OF skip(2) Cons.prems(2)] show ?thesis .
  next
    case (fails fill details err)
    then show ?thesis by simp
  next
    case (merges fill details out extracted)
    let ?req = "extraction_request instr fill details result"
    have "fst ` set (js_entries out) \<subseteq> set (prompt_propertyNames (prompt ?req))"
      using closed merges(3) by blast
    then have "fst ` set extracted \<subseteq> set (map fst fill)"
      using reconcile_set_keys[OF merges(4)] by (simp add: extraction_request_def)
    with requested_disjoint[OF merges(1)] Cons.prems(2) have "k \<notin> fst ` set extracted"
      by blast
    then have same: "map_of (merge_extracted result extracted) k = map_of result k"
      by (rule map_of_merge_extracted_other)
    have "k \<in> fst ` set (merge_extracted result extracted)"
      using Cons.prems(2) by (simp add: keys_merge_extracted)
    from Cons.IH[OF merges(5) this] same show ?thesis by simp
  qed
qed

lemma requested_not_skipped:
  assumes "collect_level fuel e ps result properties [] [] = Some (Inr (fill, details))"
  shows "\<forall>k\<in>set (prompt_propertyNames (prompt (extraction_request instr fill details result))).
           \<exists>p. map_of ps k = Some p \<and> ptype p \<notin> set skipTypes"
  using collect_level_keys[OF assms] by (auto simp: extraction_request_def)

lemma resolve_levels_requests_declared:
  "resolve_levels fuel e instr ps levels result calls = Some (outcome, calls') \<Longrightarrow>
   \<exists>new. calls' = calls @ new
     \<and> (\<forall>r\<in>set new. \<forall>k\<in>set (prompt_propertyNames (prompt r)).
            \<exists>p. map_of ps k = Some p \<and> ptype p \<notin> set skipTypes)"
proof (induction levels arbitrary: result calls)
  case Nil
  then show ?case by simp
next
  case (Cons properties levels)
  from Cons.prems show ?case
  proof (cases rule: resolve_levels_cases)
    case (throws err)
    then show ?thesis by simp
  next
    case (skip details)
    from Cons.IH[OF skip(2)] show ?thesis .
  next
    case (fails fill details err)
    from requested_not_skipped[OF fails(1)] fails(4) show ?thesis by simp
  next
    case (merges fill details out extracted)
    let ?req = "extraction_request instr fill details result"
    from Cons.IH[OF merges(5)] obtain new where new: "calls' = (calls @ [?req]) @ new"
      "\<forall>r\<in>set new. \<forall>k\<in>set (prompt_propertyNames (prompt r)).
            \<exists>p. map_of ps k = Some p \<and> ptype p \<notin> set skipTypes" by blast
    have "\<forall>r\<in>set (?req # new). \<forall>k\<in>set (prompt_propertyNames (prompt r)).
            \<exists>p. map_of ps k = Some p \<and> ptype p \<notin> set skipTypes"
      using requested_not_skipped[OF merges(1), of instr] new(2) by simp
    moreover have "calls' = calls @ (?req # new)" using new(1) by simp
    ultimately show ?thesis by blast
  qed
qed

text \<open>
  C6. Schema synthesis fails for the four auth-only types (\<open>auth_types_unsupported\<close>),
  no request ever asks for a property of a skipped type
  (\<open>resolve_levels_requests_declared\<close>), and auth-only properties never abort a
  resolution. Secret text is an auth-only type for the schema synthesis but is missing
  from the types the level loop skips: an action with a secret-text property that is not
  predefined aborts the resolution, before any model call, whatever the collaborators do.
\<close>

theorem resolveProperties_secret_text_aborts:
  "propertyToSchema fuel e acc ''token''
     \<lparr>ptype = SECRET_TEXT, description = None, required = True, defaultValue = None,
      staticOptions = None\<rparr>
   = Some (Inl (Error ''Unsupported property type: SECRET_TEXT''))
   \<and> SECRET_TEXT \<notin> set skipTypes
   \<and> resolveProperties fuel e [[''token'']] instr
      [(''token'', \<lparr>ptype = SECRET_TEXT, description = None, required = True,
                    defaultValue = None, staticOptions = None\<rparr>)]
      \<lparr>instruction = instr, pieceName = pn, pieceVersion = pv, actionName = an,
       predefinedInput = None\<rparr>
    = Some (Inl (Error ''Unsupported property type: SECRET_TEXT''), [])"
  by (simp add: resolveProperties_def seed_result_def skipTypes_def has_key_def propertyToSchema.simps)

lemma filling_env_closed:
  "\<forall>n req out. generate_output (filling_env v) n req = Inr out
     \<longrightarrow> fst ` set (js_entries out) \<subseteq> set (prompt_propertyNames (prompt req))"
  by (auto simp: generate_output_def filling_env_def)


text \<open>
  C8 (amended). From any state of the accumulator (the seed, or the values of earlier
  levels): no model call asks for a property that is in the accumulator at that time,
  which embeds the accumulator in the prompt as context, and the schema of the call is
  closed over the requested properties only; the key set of the accumulator never
  shrinks; provided every extracted object holds only requested properties, as the closed
  schema asks of a validated answer, the value of every key already present stays the
  same; a level that contributes no property to fill, such as one whose properties are
  all present, changes neither the calls nor the accumulator.
\<close>

theorem accumulator_never_reextracted:
  assumes "resolve_levels fuel e instr ps levels result calls = Some (outcome, calls')"
  shows "(\<exists>new. calls' = calls @ new
           \<and> (\<forall>r\<in>set new.
                 set (prompt_propertyNames (prompt r)) \<inter> fst ` set (prompt_existingValues (prompt r)) = {}
                 \<and> fst ` set result \<subseteq> fst ` set (prompt_existingValues (prompt r))
                 \<and> (\<exists>fill. output_schema r = ZObject fill Strict
                        \<and> map fst fill = prompt_propertyNames (prompt r) \<and> fill \<noteq> [])))
    \<and> (\<forall>result'. outcome = Inr result' \<longrightarrow> fst ` set result \<subseteq> fst ` set result')
    \<and> (\<forall>result'. outcome = Inr result'
          \<and> (\<forall>n req out. generate_output e n req = Inr out
                 \<longrightarrow> fst ` set (js_entries out) \<subseteq> set (prompt_propertyNames (prompt req)))
          \<longrightarrow> (\<forall>k\<in>fst ` set result. map_of result' k = map_of result k))
    \<and> (\<forall>properties details. collect_level fuel e ps result properties [] [] = Some (Inr ([], details))
          \<longrightarrow> resolve_levels fuel e instr ps (properties # levels) result calls = Some (outcome, calls'))
    \<and> (\<forall>properties. (\<forall>k\<in>set properties. has_key k result \<and> k \<in> fst ` set ps)
          \<longrightarrow> resolve_levels fuel e instr ps (properties # levels) result calls = Some (outcome, calls'))"
proof (intro conjI allI impI ballI)
  from resolve_levels_calls[OF assms]
  show "\<exists>new. calls' = calls @ new
           \<and> (\<forall>r\<in>set new.
                 set (prompt_propertyNames (prompt r)) \<inter> fst ` set (prompt_existingValues (prompt r)) = {}
                 \<and> fst ` set result \<subseteq> fst ` set (prompt_existingValues (prompt r))
                 \<and> (\<exists>fill. output_schema r = ZObject fill Strict
                        \<and> map fst fill = prompt_propertyNames (prompt r) \<and> fill \<noteq> []))"
    unfolding asks_only_missing_def .
next
  fix result' assume "outcome = Inr result'"
  with assms show "fst ` set result \<subseteq> fst ` set result'"
    using resolve_levels_grows by blast
next
  fix result' k
  assume h: "outcome = Inr result'
          \<and> (\<forall>n req out. generate_output e n req = Inr out
                 \<longrightarrow> fst ` set (js_entries out) \<subseteq> set (prompt_propertyNames (prompt req)))"
    and k: "k \<in> fst ` set result"
  from h assms have run: "resolve_levels fuel e instr ps levels result calls = Some (Inr result', calls')"
    by simp
  from h have closed: "\<forall>n req out. generate_output e n req = Inr out
                 \<longrightarrow> fst ` set (js_entries out) \<subseteq> set (prompt_propertyNames (prompt req))" by simp
  show "map_of result' k = map_of result k"
    by (rule resolve_levels_keeps_values[OF closed run k])
next
  fix properties details
  assume "collect_level fuel e ps result properties [] [] = Some (Inr ([], details))"
  then show "resolve_levels fuel e instr ps (properties # levels) result calls = Some (outcome, calls')"
    using assms by (simp only: resolve_levels_skip)
next
  fix properties
  assume "\<forall>k\<in>set properties. has_key k result \<and> k \<in> fst ` set ps"
  then have "collect_level fuel e ps result properties [] [] = Some (Inr ([], []))"
    by (rule collect_level_present)
  then show "resolve_levels fuel e instr ps (properties # levels) result calls = Some (outcome, calls')"
    using assms by (simp only: resolve_levels_skip)
qed


theorem accumulator_never_reextracted_witness:
  "resolveProperties 0 (filling_env (JStr ''x'')) [[''to'', ''body'']] ''write to bob''
     [(''to'', text_property), (''body'', text_property)] predefined_operation
   = Some (Inr [(''auth'', Some (JStr ''s3cret'')), (''to'', Some (JStr ''alice'')),
                (''body'', Some (JStr ''x''))],
           [extraction_request ''write to bob'' [(''body'', ZString)]
              [\<lparr>detail_name = ''body'', detail_type = SHORT_TEXT, detail_description = None,
                detail_options = None, detail_defaultValue = None\<rparr>]
              [(''auth'', Some (JStr ''s3cret'')), (''to'', Some (JStr ''alice''))]])
   \<and> map_of [(''auth'', Some (JStr ''s3cret'')), (''to'', Some (JStr ''alice'')),
              (''body'', Some (JStr ''x''))] ''to''
     = map_of (seed_result predefined_operation) ''to''"
proof -
  let ?R = "[(''auth'', Some (JStr ''s3cret'')), (''to'', Some (JStr ''alice'')),
                (''body'', Some (JStr ''x''))]"
  let ?calls = "[extraction_request ''write to bob'' [(''body'', ZString)]
              [\<lparr>detail_name = ''body'', detail_type = SHORT_TEXT, detail_description = None,
                detail_options = None, detail_defaultValue = None\<rparr>]
              [(''auth'', Some (JStr ''s3cret'')), (''to'', Some (JStr ''alice''))]]"
  have run: "resolveProperties 0 (filling_env (JStr ''x'')) [[''to'', ''body'']] ''write to bob''
     [(''to'', text_property), (''body'', text_property)] predefined_operation
     = Some (Inr ?R, ?calls)"
    by code_simp
  have seeded: "''to'' \<in> fst ` set (seed_result predefined_operation)"
    by code_simp
  note keeps = accumulator_never_reextracted[OF run[unfolded resolveProperties_def],
      THEN conjunct2, THEN conjunct2, THEN conjunct1, rule_format, of ?R]
  have "map_of ?R ''to'' = map_of (seed_result predefined_operation) ''to''"
    by (rule keeps) (use filling_env_closed seeded in simp_all)
  with run show ?thesis by (rule conjI)
qed

text \<open>
  The claim as stated fails on the recovery path, where the parsed object is not
  validated: the predefined field \<open>to\<close> is not requested, yet the recovered object
  carries it and the merge replaces the predefined value. The request also shows the
  accumulator, auth included, in the prompt of the call.
\<close>

theorem recovered_object_overwrites_counterexample:
  "resolveProperties 0
     (scenario_env
        (NoObjectGeneratedError ''No object generated'' True
           (Some (''```json'' @ stringify (JObj [(''to'', JStr ''mallory''), (''body'', JStr ''hi'')]) @ ''```'')))
        [(stringify (JObj [(''to'', JStr ''mallory''), (''body'', JStr ''hi'')]),
          JObj [(''to'', JStr ''mallory''), (''body'', JStr ''hi'')])])
     [[''to'', ''body'']] ''write to bob''
     [(''to'', text_property), (''body'', text_property)] predefined_operation
   = Some (Inr [(''auth'', Some (JStr ''s3cret'')), (''to'', Some (JStr ''mallory'')),
                (''body'', Some (JStr ''hi''))],
           [extraction_request ''write to bob'' [(''body'', ZString)]
              [\<lparr>detail_name = ''body'', detail_type = SHORT_TEXT, detail_description = None,
                detail_options = None, detail_defaultValue = None\<rparr>]
              [(''auth'', Some (JStr ''s3cret'')), (''to'', Some (JStr ''alice''))]])
   \<and> seed_result predefined_operation = [(''auth'', Some (JStr ''s3cret'')), (''to'', Some (JStr ''alice''))]"
  by code_simp

section \<open>The executor\<close>

lemma propertyToSchema_static_total:
  "ptype p \<noteq> DYNAMIC \<Longrightarrow> propertyToSchema fuel e acc name p \<noteq> None"
  by (cases "ptype p") (simp_all add: propertyToSchema.simps Let_def)

lemma dynamic_fields_total:
  "(\<And>k v. (k, Decl v) \<in> set entries \<Longrightarrow> p2s k v \<noteq> None) \<Longrightarrow>
   dynamic_fields p2s entries sch \<noteq> None"
proof (induction p2s entries sch rule: dynamic_fields.induct)
  case (1 p2s dynamicSchema)
  show ?case by simp
next
  case (2 p2s key rest dynamicSchema)
  then show ?case by simp
next
  case (3 p2s key v rest dynamicSchema)
  have "p2s key v \<noteq> None" using "3.prems" by simp
  then obtain r where r: "p2s key v = Some r" by blast
  show ?case
  proof (cases r)
    case (Inl err)
    with r show ?thesis by simp
  next
    case (Inr s)
    show ?thesis
      using r Inr "3.IH"[OF r Inr] "3.prems"
      by (auto split: option.splits sum.splits if_splits)
  qed
qed

lemma propertyToSchema_flat_total:
  assumes "flat_dynamic e"
  shows "propertyToSchema (Suc n) e acc name p \<noteq> None"
proof (cases "ptype p = DYNAMIC")
  case False
  then show ?thesis by (rule propertyToSchema_static_total)
next
  case True
  have sub: "dynamic_fields (\<lambda>key v. propertyToSchema n e acc key v) entries [] \<noteq> None"
    if "executeProps_dynamic e name acc = Inr (Some entries)" for entries
  proof (rule dynamic_fields_total)
    fix k v assume "(k, Decl v) \<in> set entries"
    with assms that have "ptype v \<noteq> DYNAMIC" unfolding flat_dynamic_def by blast
    then show "propertyToSchema n e acc k v \<noteq> None" by (rule propertyToSchema_static_total)
  qed
  have "buildDynamicSchema (\<lambda>key v. propertyToSchema n e acc key v) e name acc \<noteq> None"
    using sub by (auto simp: buildDynamicSchema_def split: sum.splits option.splits)
  with True show ?thesis
    by (auto simp: propertyToSchema.simps[of "Suc n"] split: option.splits sum.splits)
qed

lemma collect_level_flat_total:
  assumes "flat_dynamic e"
  shows "collect_level (Suc n) e ps result properties fill details \<noteq> None"
proof (induction properties arbitrary: fill details)
  case Nil
  show ?case by simp
next
  case (Cons property rest)
  show ?case
  proof (cases "map_of ps property")
    case None
    then show ?thesis by simp
  next
    case (Some p)
    obtain r where r: "propertyToSchema (Suc n) e result property p = Some r"
      using propertyToSchema_flat_total[OF assms] by blast
    show ?thesis using Some r Cons.IH
      by (cases r) (auto split: sum.splits)
  qed
qed

lemma resolve_levels_flat_total:
  assumes "flat_dynamic e"
  shows "resolve_levels (Suc n) e instr ps levels result calls \<noteq> None"
proof (induction levels arbitrary: result calls)
  case Nil
  show ?case by simp
next
  case (Cons properties levels)
  obtain r where r: "collect_level (Suc n) e ps result properties [] [] = Some r"
    using collect_level_flat_total[OF assms] by blast
  show ?case using r Cons.IH
    by (cases r) (auto simp: Let_def split: sum.splits prod.splits)
qed

lemma execute_flat_total:
  assumes "flat_dynamic (resolution X)"
  shows "\<exists>response. execute (Suc n) X operation = Some (Inr response)"
proof -
  have total: "resolveProperties (Suc n) (resolution X) levels instr ps operation \<noteq> None" for levels instr ps
    unfolding resolveProperties_def by (rule resolve_levels_flat_total[OF assms])
  have "execute_try (Suc n) X operation \<noteq> None"
  proof (cases "getPieceAndActionOrThrow X operation")
    case (Inl err)
    then show ?thesis by (simp add: execute_try_def)
  next
    case ps: (Inr ps)
    show ?thesis
    proof (cases "sortPropertiesByDependencies X ps")
      case (Inl err)
      with ps show ?thesis by (simp add: execute_try_def)
    next
      case lv: (Inr levels)
      obtain out calls where rp: "resolveProperties (Suc n) (resolution X) levels
          (instruction operation) ps operation = Some (out, calls)"
        using total[of levels "instruction operation" ps] by (metis option.exhaust surj_pair)
      show ?thesis using ps lv rp
        by (cases out) (auto simp: execute_try_def split: sum.splits option.splits)
    qed
  qed
  then obtain r where "execute_try (Suc n) X operation = Some r" by blast
  then show ?thesis by (cases r) (simp_all add: execute_def)
qed

lemma execute_no_throw: "execute fuel X operation \<noteq> Some (Inl err)"
  by (auto simp: execute_def split: option.splits sum.splits)

lemma flat_scenario_env: "flat_dynamic (scenario_env err parsed)"
  by (simp add: flat_dynamic_def scenario_env_def)

lemma seed_secret: "seed_result secret_operation = [(''auth'', Some (JStr ''s3cret''))]"
  by (simp add: seed_result_def secret_operation_def)

lemma run_secret:
  "execute 1 (scenario_executor (Inr []) (echo_auth_runtime st) (scenario_env (Error ''down'') []))
     secret_operation
   = Some (Inr \<lparr>status = (if st = Step_FAILED then Tool_FAILED else Tool_SUCCESS),
                tool_output = Some (JStr ''s3cret''),
                resolvedInput = [(''auth'', Some (JStr ''Redacted''))],
                errorMessage = None\<rparr>)"
  by (simp add: execute_def execute_try_def scenario_executor_def resolveProperties_def seed_secret
       make_step_def echo_auth_runtime_def secret_operation_def[THEN arg_cong[where f=actionName]]
       obj_set_def redaction_marker_def)

lemma redacted_auth: "map_of (obj_set ''auth'' (Some redaction_marker) resolved) ''auth''
    = Some (Some (JStr ''Redacted''))"
  by (simp add: map_of_obj_set redaction_marker_def)

lemma redacted_others: "k \<noteq> ''auth'' \<Longrightarrow>
    map_of (obj_set ''auth'' (Some redaction_marker) resolved) k = map_of resolved k"
  by (simp add: map_of_obj_set)

lemma execute_outcomes:
  assumes "execute fuel X operation = Some (Inr response)"
  shows "(\<exists>err. response = failure_response err)
       \<or> (\<exists>ps levels resolved calls steps so.
            getPieceAndActionOrThrow X operation = Inr ps
            \<and> sortPropertiesByDependencies X ps = Inr levels
            \<and> resolveProperties fuel (resolution X) levels (instruction operation) ps operation
                = Some (Inr resolved, calls)
            \<and> handle X (make_step operation resolved) = Inr steps
            \<and> map_of steps (actionName operation) = Some so
            \<and> resolvedInput response = obj_set ''auth'' (Some redaction_marker) resolved)"
proof (cases "execute_try fuel X operation")
  case None
  with assms show ?thesis by (simp add: execute_def)
next
  case (Some r)
  show ?thesis
  proof (cases r)
    case (Inl err)
    with Some assms show ?thesis by (auto simp: execute_def)
  next
    case (Inr resp)
    with Some assms have resp: "resp = response" by (simp add: execute_def)
    from Some Inr resp have "execute_try fuel X operation = Some (Inr response)" by simp
    then show ?thesis
      unfolding execute_try_def
      by (auto split: sum.splits option.splits prod.splits)
  qed
qed

text \<open>
  C2. \<open>execute\<close> never raises: its outcome is never a thrown error, and it returns a
  response whenever the option loader is flat (with one unit of fuel). An error thrown by
  the action lookup, the dependency sorter, the resolution (schema synthesis included) or
  the runtime gives the failure response, whose status is failure and whose error message
  carries the error's message. When the chain succeeds, the status of the response is
  failure exactly when the runtime reported the step as failed, and success otherwise.
\<close>

theorem execute_never_raises:
  "(\<forall>err. execute fuel X operation \<noteq> Some (Inl err))
   \<and> (flat_dynamic (resolution X) \<longrightarrow> (\<exists>response. execute (Suc n) X operation = Some (Inr response)))
   \<and> (\<forall>err. status (failure_response err) = Tool_FAILED
          \<and> errorMessage (failure_response err) = Some (''Tool execution error: '' @ error_message err))
   \<and> (\<forall>err. getPieceAndActionOrThrow X operation = Inl err
          \<longrightarrow> execute fuel X operation = Some (Inr (failure_response err)))
   \<and> (\<forall>ps err. getPieceAndActionOrThrow X operation = Inr ps
          \<and> sortPropertiesByDependencies X ps = Inl err
          \<longrightarrow> execute fuel X operation = Some (Inr (failure_response err)))
   \<and> (\<forall>ps levels err calls. getPieceAndActionOrThrow X operation = Inr ps
          \<and> sortPropertiesByDependencies X ps = Inr levels
          \<and> resolveProperties fuel (resolution X) levels (instruction operation) ps operation
              = Some (Inl err, calls)
          \<longrightarrow> execute fuel X operation = Some (Inr (failure_response err)))
   \<and> (\<forall>ps levels resolved calls err. getPieceAndActionOrThrow X operation = Inr ps
          \<and> sortPropertiesByDependencies X ps = Inr levels
          \<and> resolveProperties fuel (resolution X) levels (instruction operation) ps operation
              = Some (Inr resolved, calls)
          \<and> handle X (make_step operation resolved) = Inl err
          \<longrightarrow> execute fuel X operation = Some (Inr (failure_response err)))
   \<and> (\<forall>ps levels resolved calls steps so. getPieceAndActionOrThrow X operation = Inr ps
          \<and> sortPropertiesByDependencies X ps = Inr levels
          \<and> resolveProperties fuel (resolution X) levels (instruction operation) ps operation
              = Some (Inr resolved, calls)
          \<and> handle X (make_step operation resolved) = Inr steps
          \<and> map_of steps (actionName operation) = Some so
          \<longrightarrow> (\<exists>response. execute fuel X operation = Some (Inr response)
                \<and> (status response = Tool_FAILED \<longleftrightarrow> step_status so = Step_FAILED)
                \<and> (status response = Tool_SUCCESS \<longleftrightarrow> step_status so \<noteq> Step_FAILED)
                \<and> tool_output response = step_output so
                \<and> errorMessage response = step_errorMessage so))"
proof (intro conjI allI impI)
  fix err show "execute fuel X operation \<noteq> Some (Inl err)" by (rule execute_no_throw)
next
  assume "flat_dynamic (resolution X)"
  then show "\<exists>response. execute (Suc n) X operation = Some (Inr response)"
    by (rule execute_flat_total)
next
  fix err
  show "status (failure_response err) = Tool_FAILED"
    and "errorMessage (failure_response err) = Some (''Tool execution error: '' @ error_message err)"
    by (simp_all add: failure_response_def)
next
  fix err assume "getPieceAndActionOrThrow X operation = Inl err"
  then show "execute fuel X operation = Some (Inr (failure_response err))"
    by (simp add: execute_def execute_try_def)
next
  fix ps err
  assume "getPieceAndActionOrThrow X operation = Inr ps \<and> sortPropertiesByDependencies X ps = Inl err"
  then show "execute fuel X operation = Some (Inr (failure_response err))"
    by (simp add: execute_def execute_try_def)
next
  fix ps levels err calls
  assume "getPieceAndActionOrThrow X operation = Inr ps
          \<and> sortPropertiesByDependencies X ps = Inr levels
          \<and> resolveProperties fuel (resolution X) levels (instruction operation) ps operation
              = Some (Inl err, calls)"
  then show "execute fuel X operation = Some (Inr (failure_response err))"
    by (simp add: execute_def execute_try_def)
next
  fix ps levels resolved calls err
  assume "getPieceAndActionOrThrow X operation = Inr ps
          \<and> sortPropertiesByDependencies X ps = Inr levels
          \<and> resolveProperties fuel (resolution X) levels (instruction operation) ps operation
              = Some (Inr resolved, calls)
          \<and> handle X (make_step operation resolved) = Inl err"
  then show "execute fuel X operation = Some (Inr (failure_response err))"
    by (simp add: execute_def execute_try_def)
next
  fix ps levels resolved calls steps so
  assume "getPieceAndActionOrThrow X operation = Inr ps
          \<and> sortPropertiesByDependencies X ps = Inr levels
          \<and> resolveProperties fuel (resolution X) levels (instruction operation) ps operation
              = Some (Inr resolved, calls)
          \<and> handle X (make_step operation resolved) = Inr steps
          \<and> map_of steps (actionName operation) = Some so"
  then show "\<exists>response. execute fuel X operation = Some (Inr response)
                \<and> (status response = Tool_FAILED \<longleftrightarrow> step_status so = Step_FAILED)
                \<and> (status response = Tool_SUCCESS \<longleftrightarrow> step_status so \<noteq> Step_FAILED)
                \<and> tool_output response = step_output so
                \<and> errorMessage response = step_errorMessage so"
    by (simp add: execute_def execute_try_def)
qed


theorem execute_never_raises_witness:
  "(\<exists>response. execute 1 (scenario_executor (Inr []) (echo_auth_runtime Step_FAILED)
                             (scenario_env (Error ''down'') [])) secret_operation
        = Some (Inr response) \<and> status response = Tool_FAILED)
   \<and> (\<exists>response. execute 1 (scenario_executor (Inr []) (echo_auth_runtime Step_PAUSED)
                             (scenario_env (Error ''down'') [])) secret_operation
        = Some (Inr response) \<and> status response = Tool_SUCCESS)
   \<and> execute 0 (scenario_executor (Inl (Error ''Action not found'')) (echo_auth_runtime Step_SUCCEEDED)
                   (scenario_env (Error ''down'') [])) secret_operation
      = Some (Inr \<lparr>status = Tool_FAILED, tool_output = None, resolvedInput = [],
                   errorMessage = Some ''Tool execution error: Action not found''\<rparr>)"
proof -
  let ?e = "scenario_env (Error ''down'') []"
  let ?resolved = "[(''auth'', Some (JStr ''s3cret''))]"
  have pre: "getPieceAndActionOrThrow (scenario_executor (Inr []) (echo_auth_runtime st) ?e)
               secret_operation = Inr []
          \<and> sortPropertiesByDependencies (scenario_executor (Inr []) (echo_auth_runtime st) ?e) []
               = Inr [[]]
          \<and> resolveProperties 1 (resolution (scenario_executor (Inr []) (echo_auth_runtime st) ?e))
               [[]] (instruction secret_operation) [] secret_operation
              = Some (Inr ?resolved, [])
          \<and> handle (scenario_executor (Inr []) (echo_auth_runtime st) ?e)
               (make_step secret_operation ?resolved)
              = Inr [(''send'', \<lparr>step_output = Some (JStr ''s3cret''), step_errorMessage = None,
                                 step_status = st\<rparr>)]
          \<and> map_of [(''send'', \<lparr>step_output = Some (JStr ''s3cret''), step_errorMessage = None,
                                 step_status = st\<rparr>)] (actionName secret_operation)
              = Some \<lparr>step_output = Some (JStr ''s3cret''), step_errorMessage = None,
                      step_status = st\<rparr>" for st
    by (simp add: scenario_executor_def resolveProperties_def seed_secret make_step_def
          echo_auth_runtime_def secret_operation_def[THEN arg_cong[where f=actionName]])
  note success = execute_never_raises[THEN conjunct2, THEN conjunct2, THEN conjunct2,
      THEN conjunct2, THEN conjunct2, THEN conjunct2, THEN conjunct2, rule_format, OF pre]
  have a: "\<exists>response. execute 1 (scenario_executor (Inr []) (echo_auth_runtime Step_FAILED) ?e)
        secret_operation = Some (Inr response) \<and> status response = Tool_FAILED"
    using success[of Step_FAILED] by (elim exE conjE) (rule exI, simp)
  have b: "\<exists>response. execute 1 (scenario_executor (Inr []) (echo_auth_runtime Step_PAUSED) ?e)
        secret_operation = Some (Inr response) \<and> status response = Tool_SUCCESS"
    using success[of Step_PAUSED] by (elim exE conjE) (rule exI, simp)
  have lookup: "getPieceAndActionOrThrow (scenario_executor (Inl (Error ''Action not found''))
        (echo_auth_runtime Step_SUCCEEDED) ?e) secret_operation = Inl (Error ''Action not found'')"
    by (simp add: scenario_executor_def)
  note failed = execute_never_raises[THEN conjunct2, THEN conjunct2, THEN conjunct2, THEN conjunct1,
      rule_format, OF lookup]
  have c: "execute 0 (scenario_executor (Inl (Error ''Action not found'')) (echo_auth_runtime Step_SUCCEEDED)
                   ?e) secret_operation
      = Some (Inr \<lparr>status = Tool_FAILED, tool_output = None, resolvedInput = [],
                   errorMessage = Some ''Tool execution error: Action not found''\<rparr>)"
    using failed[of 0] by (simp add: failure_response_def)
  from a b c show ?thesis by simp
qed

text \<open>
  C3 (amended). When the chain succeeds, \<open>execute\<close> returns the resolved input with its
  \<open>auth\<close> field set to the redaction marker, every other field as resolved, while the
  step handed to the runtime carries the resolved input as it is. When a stage of the
  chain throws (the action lookup, the dependency sorter, the resolution, the runtime, or
  reading a step the runtime did not return), \<open>execute\<close> returns the failure response,
  whose resolved input is the empty object: it has no \<open>auth\<close> field at all. There is
  no other outcome: every response is one of these two.
\<close>

theorem execute_redacts_auth_field:
  "(\<forall>ps levels resolved calls steps so. getPieceAndActionOrThrow X operation = Inr ps
          \<and> sortPropertiesByDependencies X ps = Inr levels
          \<and> resolveProperties fuel (resolution X) levels (instruction operation) ps operation
              = Some (Inr resolved, calls)
          \<and> handle X (make_step operation resolved) = Inr steps
          \<and> map_of steps (actionName operation) = Some so
          \<longrightarrow> (\<exists>response. execute fuel X operation = Some (Inr response)
                \<and> resolvedInput response = obj_set ''auth'' (Some redaction_marker) resolved
                \<and> map_of (resolvedInput response) ''auth'' = Some (Some (JStr ''Redacted''))
                \<and> (\<forall>k. k \<noteq> ''auth'' \<longrightarrow> map_of (resolvedInput response) k = map_of resolved k)
                \<and> settings_input (make_step operation resolved) = resolved))
   \<and> (\<forall>err. getPieceAndActionOrThrow X operation = Inl err
          \<longrightarrow> execute fuel X operation = Some (Inr (failure_response err)))
   \<and> (\<forall>ps err. getPieceAndActionOrThrow X operation = Inr ps
          \<and> sortPropertiesByDependencies X ps = Inl err
          \<longrightarrow> execute fuel X operation = Some (Inr (failure_response err)))
   \<and> (\<forall>ps levels err calls. getPieceAndActionOrThrow X operation = Inr ps
          \<and> sortPropertiesByDependencies X ps = Inr levels
          \<and> resolveProperties fuel (resolution X) levels (instruction operation) ps operation
              = Some (Inl err, calls)
          \<longrightarrow> execute fuel X operation = Some (Inr (failure_response err)))
   \<and> (\<forall>ps levels resolved calls err. getPieceAndActionOrThrow X operation = Inr ps
          \<and> sortPropertiesByDependencies X ps = Inr levels
          \<and> resolveProperties fuel (resolution X) levels (instruction operation) ps operation
              = Some (Inr resolved, calls)
          \<and> handle X (make_step operation resolved) = Inl err
          \<longrightarrow> execute fuel X operation = Some (Inr (failure_response err)))
   \<and> (\<forall>ps levels resolved calls steps. getPieceAndActionOrThrow X operation = Inr ps
          \<and> sortPropertiesByDependencies X ps = Inr levels
          \<and> resolveProperties fuel (resolution X) levels (instruction operation) ps operation
              = Some (Inr resolved, calls)
          \<and> handle X (make_step operation resolved) = Inr steps
          \<and> map_of steps (actionName operation) = None
          \<longrightarrow> (\<exists>err. execute fuel X operation = Some (Inr (failure_response err))))
   \<and> (\<forall>err. resolvedInput (failure_response err) = []
          \<and> map_of (resolvedInput (failure_response err)) ''auth'' = None)
   \<and> (\<forall>response. execute fuel X operation = Some (Inr response) \<longrightarrow>
        ((\<exists>err. response = failure_response err \<and> resolvedInput response = []
                \<and> map_of (resolvedInput response) ''auth'' = None)
         \<or> (\<exists>ps levels resolved calls steps.
               getPieceAndActionOrThrow X operation = Inr ps
               \<and> sortPropertiesByDependencies X ps = Inr levels
               \<and> resolveProperties fuel (resolution X) levels (instruction operation) ps operation
                   = Some (Inr resolved, calls)
               \<and> handle X (make_step operation resolved) = Inr steps
               \<and> settings_input (make_step operation resolved) = resolved
               \<and> resolvedInput response = obj_set ''auth'' (Some redaction_marker) resolved
               \<and> map_of (resolvedInput response) ''auth'' = Some (Some (JStr ''Redacted''))
               \<and> (\<forall>k. k \<noteq> ''auth'' \<longrightarrow> map_of (resolvedInput response) k = map_of resolved k))))"
proof (intro conjI allI impI)
  fix ps levels resolved calls steps so
  assume h: "getPieceAndActionOrThrow X operation = Inr ps
          \<and> sortPropertiesByDependencies X ps = Inr levels
          \<and> resolveProperties fuel (resolution X) levels (instruction operation) ps operation
              = Some (Inr resolved, calls)
          \<and> handle X (make_step operation resolved) = Inr steps
          \<and> map_of steps (actionName operation) = Some so"
  from h show "\<exists>response. execute fuel X operation = Some (Inr response)
                \<and> resolvedInput response = obj_set ''auth'' (Some redaction_marker) resolved
                \<and> map_of (resolvedInput response) ''auth'' = Some (Some (JStr ''Redacted''))
                \<and> (\<forall>k. k \<noteq> ''auth'' \<longrightarrow> map_of (resolvedInput response) k = map_of resolved k)
                \<and> settings_input (make_step operation resolved) = resolved"
    by (simp add: execute_def execute_try_def redacted_auth redacted_others make_step_def)
next
  fix err assume "getPieceAndActionOrThrow X operation = Inl err"
  then show "execute fuel X operation = Some (Inr (failure_response err))"
    by (simp add: execute_def execute_try_def)
next
  fix ps err
  assume "getPieceAndActionOrThrow X operation = Inr ps \<and> sortPropertiesByDependencies X ps = Inl err"
  then show "execute fuel X operation = Some (Inr (failure_response err))"
    by (simp add: execute_def execute_try_def)
next
  fix ps levels err calls
  assume "getPieceAndActionOrThrow X operation = Inr ps
          \<and> sortPropertiesByDependencies X ps = Inr levels
          \<and> resolveProperties fuel (resolution X) levels (instruction operation) ps operation
              = Some (Inl err, calls)"
  then show "execute fuel X operation = Some (Inr (failure_response err))"
    by (simp add: execute_def execute_try_def)
next
  fix ps levels resolved calls err
  assume "getPieceAndActionOrThrow X operation = Inr ps
          \<and> sortPropertiesByDependencies X ps = Inr levels
          \<and> resolveProperties fuel (resolution X) levels (instruction operation) ps operation
              = Some (Inr resolved, calls)
          \<and> handle X (make_step operation resolved) = Inl err"
  then show "execute fuel X operation = Some (Inr (failure_response err))"
    by (simp add: execute_def execute_try_def)
next
  fix ps levels resolved calls steps
  assume "getPieceAndActionOrThrow X operation = Inr ps
          \<and> sortPropertiesByDependencies X ps = Inr levels
          \<and> resolveProperties fuel (resolution X) levels (instruction operation) ps operation
              = Some (Inr resolved, calls)
          \<and> handle X (make_step operation resolved) = Inr steps
          \<and> map_of steps (actionName operation) = None"
  then have "execute fuel X operation
      = Some (Inr (failure_response (Error ''Cannot destructure the step output as it is undefined.'')))"
    by (simp add: execute_def execute_try_def)
  then show "\<exists>err. execute fuel X operation = Some (Inr (failure_response err))"
    by (rule exI)
next
  fix err
  show "resolvedInput (failure_response err) = []"
    and "map_of (resolvedInput (failure_response err)) ''auth'' = None"
    by (simp_all add: failure_response_def)
next
  fix response
  assume "execute fuel X operation = Some (Inr response)"
  from execute_outcomes[OF this]
  show "(\<exists>err. response = failure_response err \<and> resolvedInput response = []
             \<and> map_of (resolvedInput response) ''auth'' = None)
      \<or> (\<exists>ps levels resolved calls steps.
            getPieceAndActionOrThrow X operation = Inr ps
            \<and> sortPropertiesByDependencies X ps = Inr levels
            \<and> resolveProperties fuel (resolution X) levels (instruction operation) ps operation
                = Some (Inr resolved, calls)
            \<and> handle X (make_step operation resolved) = Inr steps
            \<and> settings_input (make_step operation resolved) = resolved
            \<and> resolvedInput response = obj_set ''auth'' (Some redaction_marker) resolved
            \<and> map_of (resolvedInput response) ''auth'' = Some (Some (JStr ''Redacted''))
            \<and> (\<forall>k. k \<noteq> ''auth'' \<longrightarrow> map_of (resolvedInput response) k = map_of resolved k))"
  proof (elim disjE exE conjE)
    fix err assume "response = failure_response err"
    then have "\<exists>err. response = failure_response err \<and> resolvedInput response = []
             \<and> map_of (resolvedInput response) ''auth'' = None"
      by (intro exI[of _ err]) (simp add: failure_response_def)
    then show ?thesis by (rule disjI1)
  next
    fix ps levels resolved calls steps so
    assume h: "getPieceAndActionOrThrow X operation = Inr ps"
      "sortPropertiesByDependencies X ps = Inr levels"
      "resolveProperties fuel (resolution X) levels (instruction operation) ps operation
                = Some (Inr resolved, calls)"
      "handle X (make_step operation resolved) = Inr steps"
      "resolvedInput response = obj_set ''auth'' (Some redaction_marker) resolved"
    have "getPieceAndActionOrThrow X operation = Inr ps
            \<and> sortPropertiesByDependencies X ps = Inr levels
            \<and> resolveProperties fuel (resolution X) levels (instruction operation) ps operation
                = Some (Inr resolved, calls)
            \<and> handle X (make_step operation resolved) = Inr steps
            \<and> settings_input (make_step operation resolved) = resolved
            \<and> resolvedInput response = obj_set ''auth'' (Some redaction_marker) resolved
            \<and> map_of (resolvedInput response) ''auth'' = Some (Some (JStr ''Redacted''))
            \<and> (\<forall>k. k \<noteq> ''auth'' \<longrightarrow> map_of (resolvedInput response) k = map_of resolved k)"
      using h by (simp add: redacted_auth redacted_others make_step_def)
    then show ?thesis by (intro disjI2 exI)
  qed
qed

theorem execute_redacts_auth_field_witness:
  "(\<exists>response. execute 1 (scenario_executor (Inr []) (echo_auth_runtime Step_SUCCEEDED)
                             (scenario_env (Error ''down'') [])) secret_operation
        = Some (Inr response)
      \<and> resolvedInput response = [(''auth'', Some (JStr ''Redacted''))]
      \<and> settings_input (make_step secret_operation [(''auth'', Some (JStr ''s3cret''))])
          = [(''auth'', Some (JStr ''s3cret''))])
   \<and> execute 0 (scenario_executor (Inl (Error ''Action not found'')) (echo_auth_runtime Step_SUCCEEDED)
                   (scenario_env (Error ''down'') [])) secret_operation
      = Some (Inr \<lparr>status = Tool_FAILED, tool_output = None, resolvedInput = [],
                   errorMessage = Some ''Tool execution error: Action not found''\<rparr>)
   \<and> (map_of [(''auth'', Some (JStr ''Redacted''))] ''auth'' = None
      \<or> map_of [(''auth'', Some (JStr ''Redacted''))] ''auth'' = Some (Some (JStr ''Redacted'')))"
proof -
  let ?e = "scenario_env (Error ''down'') []"
  let ?X = "scenario_executor (Inr []) (echo_auth_runtime Step_SUCCEEDED) ?e"
  let ?resolved = "[(''auth'', Some (JStr ''s3cret''))]"
  let ?so = "\<lparr>step_output = Some (JStr ''s3cret''), step_errorMessage = None,
              step_status = Step_SUCCEEDED\<rparr>"
  let ?r = "\<lparr>status = Tool_SUCCESS, tool_output = Some (JStr ''s3cret''),
                resolvedInput = [(''auth'', Some (JStr ''Redacted''))], errorMessage = None\<rparr>"
  have pre: "getPieceAndActionOrThrow ?X secret_operation = Inr []
          \<and> sortPropertiesByDependencies ?X [] = Inr [[]]
          \<and> resolveProperties 1 (resolution ?X) [[]] (instruction secret_operation) [] secret_operation
              = Some (Inr ?resolved, [])
          \<and> handle ?X (make_step secret_operation ?resolved) = Inr [(''send'', ?so)]
          \<and> map_of [(''send'', ?so)] (actionName secret_operation) = Some ?so"
    by (simp add: scenario_executor_def resolveProperties_def seed_secret make_step_def
          echo_auth_runtime_def secret_operation_def[THEN arg_cong[where f=actionName]])
  note success = execute_redacts_auth_field[THEN conjunct1, rule_format, OF pre]
  have a: "\<exists>response. execute 1 ?X secret_operation = Some (Inr response)
      \<and> resolvedInput response = [(''auth'', Some (JStr ''Redacted''))]
      \<and> settings_input (make_step secret_operation ?resolved) = ?resolved"
    using success
    by (elim exE conjE) (rule exI, simp add: obj_set_def redaction_marker_def)
  have lookup: "getPieceAndActionOrThrow (scenario_executor (Inl (Error ''Action not found''))
        (echo_auth_runtime Step_SUCCEEDED) ?e) secret_operation = Inl (Error ''Action not found'')"
    by (simp add: scenario_executor_def)
  note failed = execute_redacts_auth_field[THEN conjunct2, THEN conjunct1, rule_format, OF lookup]
  have b: "execute 0 (scenario_executor (Inl (Error ''Action not found'')) (echo_auth_runtime Step_SUCCEEDED)
                   ?e) secret_operation
      = Some (Inr \<lparr>status = Tool_FAILED, tool_output = None, resolvedInput = [],
                   errorMessage = Some ''Tool execution error: Action not found''\<rparr>)"
    using failed[of 0] by (simp add: failure_response_def)
  have run: "execute 1 ?X secret_operation = Some (Inr ?r)"
    using run_secret[of Step_SUCCEEDED] by simp
  note shape = execute_redacts_auth_field[of ?X secret_operation 1, THEN conjunct2, THEN conjunct2,
      THEN conjunct2, THEN conjunct2, THEN conjunct2, THEN conjunct2, THEN conjunct2,
      THEN spec, THEN mp, OF run]
  have c: "map_of (resolvedInput ?r) ''auth'' = None
      \<or> map_of (resolvedInput ?r) ''auth'' = Some (Some (JStr ''Redacted''))"
    using shape by (elim disjE exE conjE) simp_all
  from a b c show ?thesis by simp
qed


text \<open>
  The claim as stated fails in both outcomes. In the failure outcome the returned resolved
  input is empty, so its \<open>auth\<close> field is not the redaction marker. In the success
  outcome only the resolved input is redacted: the runtime is handed the cleartext, and
  what it returns as the step's output is returned as it is, here the cleartext itself.
\<close>

theorem execute_auth_redaction_counterexample:
  "execute 0 (scenario_executor (Inl (Error ''Action not found'')) (echo_auth_runtime Step_SUCCEEDED)
                   (scenario_env (Error ''down'') [])) secret_operation
      = Some (Inr \<lparr>status = Tool_FAILED, tool_output = None, resolvedInput = [],
                   errorMessage = Some ''Tool execution error: Action not found''\<rparr>)
   \<and> map_of ([] :: record_obj) ''auth'' \<noteq> Some (Some (JStr ''Redacted''))
   \<and> execute 1 (scenario_executor (Inr []) (echo_auth_runtime Step_SUCCEEDED)
                   (scenario_env (Error ''down'') [])) secret_operation
      = Some (Inr \<lparr>status = Tool_SUCCESS, tool_output = Some (JStr ''s3cret''),
                   resolvedInput = [(''auth'', Some (JStr ''Redacted''))], errorMessage = None\<rparr>)"
  by (simp add: execute_def execute_try_def scenario_executor_def failure_response_def
        resolveProperties_def seed_secret make_step_def echo_auth_runtime_def
        secret_operation_def[THEN arg_cong[where f=actionName]] obj_set_def redaction_marker_def)

section \<open>The transcript's tool-call blocks\<close>

lemma findIndex_None: "findIndex P xs = None \<longleftrightarrow> (\<forall>x\<in>set xs. \<not> P x)"
  by (induction xs) auto

lemma findIndex_Some:
  "findIndex P xs = Some i \<Longrightarrow> i < length xs \<and> P (xs ! i) \<and> (\<forall>j<i. \<not> P (xs ! j))"
proof (induction xs arbitrary: i)
  case Nil
  then show ?case by simp
next
  case (Cons x xs)
  show ?case
  proof (cases "P x")
    case True
    with Cons.prems show ?thesis by simp
  next
    case False
    with Cons.prems obtain i' where i': "findIndex P xs = Some i'" "i = Suc i'" by auto
    from Cons.IH[OF i'(1)] False i'(2) show ?thesis
      by (auto simp: nth_Cons split: nat.splits)
  qed
qed

lemma findIndex_first:
  "i < length xs \<Longrightarrow> P (xs ! i) \<Longrightarrow> (\<forall>j<i. \<not> P (xs ! j)) \<Longrightarrow> findIndex P xs = Some i"
proof (induction xs arbitrary: i)
  case Nil
  then show ?case by simp
next
  case (Cons x xs)
  show ?case
  proof (cases i)
    case 0
    with Cons.prems show ?thesis by simp
  next
    case (Suc i')
    with Cons.prems have "\<not> P x" by auto
    moreover have "findIndex P xs = Some i'"
      using Cons.prems Suc by (intro Cons.IH) auto
    ultimately show ?thesis using Suc by simp
  qed
qed

lemma is_call_with_id_iff: "is_call_with_id callId b \<longleftrightarrow> (\<exists>t. b = ToolCall t \<and> toolCallId t = callId)"
  by (cases b) auto

lemma finishToolCall_located:
  assumes "findIndex (is_call_with_id callId) steps = Some i"
  shows "finishToolCall steps callId out now = Inr (steps[i := complete_block now out (steps ! i)])"
    and "failToolCall steps callId now = Inr (steps[i := complete_block now failed_output (steps ! i)])"
  using assms by (simp_all add: finishToolCall_def failToolCall_def assertNotNullOrUndefined_def)

lemma finishToolCall_unknown:
  assumes "findIndex (is_call_with_id callId) steps = None"
  shows "finishToolCall steps callId out now = Inl (Error ''Last block must be a tool call is null or undefined'')"
    and "failToolCall steps callId now = Inl (Error ''Last block must be a tool call is null or undefined'')"
  using assms by (simp_all add: finishToolCall_def failToolCall_def assertNotNullOrUndefined_def)

lemma startToolCall_appends:
  assumes "startToolCall steps name callId inp agentTools now = Inr steps'"
  shows "\<exists>t. steps' = steps @ [ToolCall t] \<and> call_status t = IN_PROGRESS \<and> toolCallId t = callId
           \<and> call_output t = None \<and> endTime t = None \<and> startTime t = now \<and> call_input t = inp"
  using assms
  by (auto simp: startToolCall_def getToolMetadata_def assertNotNullOrUndefined_def
           split: sum.splits option.splits AgentToolType.splits)

lemma complete_block_status:
  "complete_block now out b = ToolCall t' \<Longrightarrow> call_status t' = COMPLETED"
  by (cases b) auto

text \<open>
  C9 (amended). \<open>startToolCall\<close> appends a block that is in progress, without output or
  end timestamp. \<open>finishToolCall\<close> and \<open>failToolCall\<close> locate the first tool-call block
  with the given id, whatever its status, and replace that one block by its completed
  form, with the end timestamp and the given output or the fixed failure output; every
  other block is left as it is. So a block in progress that is the first one with its id
  (always, when ids are unique) becomes completed; a completed block stays completed
  under both operations; with an id that no block has, both fail hard.
\<close>

theorem toolcall_lifecycle:
  "(\<forall>steps'. startToolCall steps name callId inp agentTools now = Inr steps' \<longrightarrow>
      (\<exists>t. steps' = steps @ [ToolCall t] \<and> call_status t = IN_PROGRESS \<and> toolCallId t = callId
          \<and> call_output t = None \<and> endTime t = None))
   \<and> (\<forall>i t. i < length steps \<and> steps ! i = ToolCall t \<and> toolCallId t = callId
          \<and> (\<forall>j<i. \<not> is_call_with_id callId (steps ! j)) \<longrightarrow>
        finishToolCall steps callId out now
          = Inr (steps[i := ToolCall (t\<lparr>call_status := COMPLETED, endTime := Some now,
                                         call_output := Some out\<rparr>)])
        \<and> failToolCall steps callId now
          = Inr (steps[i := ToolCall (t\<lparr>call_status := COMPLETED, endTime := Some now,
                                         call_output := Some failed_output\<rparr>)]))
   \<and> ((\<forall>b\<in>set steps. \<not> is_call_with_id callId b) \<longrightarrow>
        (\<exists>err. finishToolCall steps callId out now = Inl err)
        \<and> (\<exists>err. failToolCall steps callId now = Inl err))
   \<and> (\<forall>steps' j t. (finishToolCall steps callId out now = Inr steps'
                      \<or> failToolCall steps callId now = Inr steps')
          \<and> j < length steps \<and> steps ! j = ToolCall t \<and> call_status t = COMPLETED \<longrightarrow>
        length steps' = length steps
        \<and> (\<exists>t'. steps' ! j = ToolCall t' \<and> call_status t' = COMPLETED))"
proof (intro conjI allI impI)
  fix steps'
  assume "startToolCall steps name callId inp agentTools now = Inr steps'"
  from startToolCall_appends[OF this]
  show "\<exists>t. steps' = steps @ [ToolCall t] \<and> call_status t = IN_PROGRESS \<and> toolCallId t = callId
          \<and> call_output t = None \<and> endTime t = None" by blast
next
  fix i t
  assume h: "i < length steps \<and> steps ! i = ToolCall t \<and> toolCallId t = callId
          \<and> (\<forall>j<i. \<not> is_call_with_id callId (steps ! j))"
  then have "findIndex (is_call_with_id callId) steps = Some i"
    by (intro findIndex_first) auto
  from finishToolCall_located[OF this] h
  show "finishToolCall steps callId out now
          = Inr (steps[i := ToolCall (t\<lparr>call_status := COMPLETED, endTime := Some now,
                                         call_output := Some out\<rparr>)])"
    and "failToolCall steps callId now
          = Inr (steps[i := ToolCall (t\<lparr>call_status := COMPLETED, endTime := Some now,
                                         call_output := Some failed_output\<rparr>)])"
    by simp_all
next
  assume "\<forall>b\<in>set steps. \<not> is_call_with_id callId b"
  then have "findIndex (is_call_with_id callId) steps = None" by (simp add: findIndex_None)
  from finishToolCall_unknown[OF this]
  show "\<exists>err. finishToolCall steps callId out now = Inl err"
    and "\<exists>err. failToolCall steps callId now = Inl err" by blast+
next
  fix steps' j t
  assume h: "(finishToolCall steps callId out now = Inr steps'
                      \<or> failToolCall steps callId now = Inr steps')
          \<and> j < length steps \<and> steps ! j = ToolCall t \<and> call_status t = COMPLETED"
  then obtain i o' where i: "findIndex (is_call_with_id callId) steps = Some i"
    and s': "steps' = steps[i := complete_block now o' (steps ! i)]"
    by (cases "findIndex (is_call_with_id callId) steps")
       (auto simp: finishToolCall_unknown finishToolCall_located)
  show "length steps' = length steps" using s' by simp
  show "\<exists>t'. steps' ! j = ToolCall t' \<and> call_status t' = COMPLETED"
  proof (cases "j = i")
    case True
    with h s' show ?thesis by simp
  next
    case False
    with h s' show ?thesis by simp
  qed
qed

theorem toolcall_lifecycle_witness:
  "finishToolCall
     [Markdown ''hi'',
      ToolCall \<lparr>call_toolName = ''send'', toolCallId = ''a'', call_status = IN_PROGRESS,
                call_input = JObj [], call_output = None, startTime = ''t0'', endTime = None,
                call_kind = FlowCall ''send'' ''f1''\<rparr>]
     ''a'' (JObj [(''ok'', JBool True)]) ''t1''
   = Inr [Markdown ''hi'',
      ToolCall \<lparr>call_toolName = ''send'', toolCallId = ''a'', call_status = COMPLETED,
                call_input = JObj [], call_output = Some (JObj [(''ok'', JBool True)]),
                startTime = ''t0'', endTime = Some ''t1'',
                call_kind = FlowCall ''send'' ''f1''\<rparr>]
   \<and> (\<exists>err. finishToolCall [Markdown ''hi''] ''a'' (JObj [(''ok'', JBool True)]) ''t1'' = Inl err)"
proof -
  let ?t = "\<lparr>call_toolName = ''send'', toolCallId = ''a'', call_status = IN_PROGRESS,
                call_input = JObj [], call_output = None, startTime = ''t0'', endTime = None,
                call_kind = FlowCall ''send'' ''f1''\<rparr>"
  let ?steps = "[Markdown ''hi'', ToolCall ?t]"
  let ?out = "JObj [(''ok'', JBool True)]"
  have pre: "1 < length ?steps \<and> ?steps ! 1 = ToolCall ?t \<and> toolCallId ?t = ''a''
          \<and> (\<forall>j<1. \<not> is_call_with_id ''a'' (?steps ! j))" by simp
  note located = toolcall_lifecycle[of ?steps "''send''" "''a''" JNull "[]" "''t1''" ?out,
      THEN conjunct2, THEN conjunct1, rule_format, of 1 ?t, OF pre, THEN conjunct1]
  have none: "\<forall>b\<in>set [Markdown ''hi'']. \<not> is_call_with_id ''a'' b" by simp
  note unknown = toolcall_lifecycle[of "[Markdown ''hi'']" "''send''" "''a''" JNull "[]" "''t1''" ?out,
      THEN conjunct2, THEN conjunct2, THEN conjunct1, THEN mp, OF none, THEN conjunct1]
  from located unknown show ?thesis by simp
qed

text \<open>
  The claim as stated fails when two blocks share an id: the id matches the block in
  progress, yet the completed block before it is the one that is marked again, and the
  block in progress stays so.
\<close>

theorem finishToolCall_duplicate_id_counterexample:
  "finishToolCall
     [ToolCall \<lparr>call_toolName = ''send'', toolCallId = ''a'', call_status = COMPLETED,
                call_input = JObj [], call_output = Some (JObj [(''n'', JNum 1)]),
                startTime = ''t0'', endTime = Some ''t1'', call_kind = FlowCall ''send'' ''f1''\<rparr>,
      ToolCall \<lparr>call_toolName = ''send'', toolCallId = ''a'', call_status = IN_PROGRESS,
                call_input = JObj [], call_output = None, startTime = ''t2'', endTime = None,
                call_kind = FlowCall ''send'' ''f1''\<rparr>]
     ''a'' (JObj [(''n'', JNum 2)]) ''t3''
   = Inr
     [ToolCall \<lparr>call_toolName = ''send'', toolCallId = ''a'', call_status = COMPLETED,
                call_input = JObj [], call_output = Some (JObj [(''n'', JNum 2)]),
                startTime = ''t0'', endTime = Some ''t3'', call_kind = FlowCall ''send'' ''f1''\<rparr>,
      ToolCall \<lparr>call_toolName = ''send'', toolCallId = ''a'', call_status = IN_PROGRESS,
                call_input = JObj [], call_output = None, startTime = ''t2'', endTime = None,
                call_kind = FlowCall ''send'' ''f1''\<rparr>]"
  by (simp add: finishToolCall_def assertNotNullOrUndefined_def)

end
